theory Spec2Isabelle
  imports Main "HOL-Library.AList"
begin

section \<open>Values, Python primitives and the collaborator\<close>

text \<open>
  The resource of \<^verbatim>\<open>module_utils/configuration.py\<close> works on JSON-like Python values:
  request parameters, request bodies and response bodies. A dictionary is an association
  list in insertion order (keys are strings), read with \<open>map_of\<close> and written with
  \<open>AList.update\<close>, which replaces a binding in place or appends a new one.
\<close>

datatype val =
    VNone
  | VBool bool
  | VInt int
  | VStr string
  | VList "val list"
  | VDict "(string \<times> val) list"

type_synonym dict = "(string \<times> val) list"

text \<open>Exceptions raised by the Python runtime itself.\<close>

datatype pyerr = KeyError | TypeError | ValueError | AttributeError

text \<open>
  The exceptions of the module: \<^verbatim>\<open>FtdInvalidOperationNameError(operation_name)\<close>,
  \<^verbatim>\<open>ValidationError(report)\<close>, \<^verbatim>\<open>CheckModeException()\<close>,
  \<^verbatim>\<open>FtdServerError(response, code)\<close> and \<^verbatim>\<open>FtdConfigurationError(msg, obj)\<close>, whose
  second argument is optional.
\<close>

datatype error =
    FtdInvalidOperationNameError string
  | ValidationError dict
  | CheckModeException
  | FtdServerError val int
  | FtdConfigurationError string "val option"
  | PyError pyerr

datatype http_method = GET | POST | PUT | DELETE | OtherMethod string

text \<open>An operation specification: the fields \<^verbatim>\<open>OperationField.URL\<close>, \<^verbatim>\<open>METHOD\<close>, \<^verbatim>\<open>MODEL_NAME\<close>.\<close>

record op_spec =
  spec_url :: string
  spec_method :: http_method
  spec_model_name :: string

text \<open>The keyword arguments of one \<^verbatim>\<open>send_request\<close> call; an argument left out is \<open>VNone\<close>.\<close>

record request =
  url_path :: string
  http_method :: http_method
  body_params :: val
  path_params :: val
  query_params :: val

text \<open>The response envelope: \<^verbatim>\<open>ResponseParams.SUCCESS\<close>, \<^verbatim>\<open>STATUS_CODE\<close>, \<^verbatim>\<open>RESPONSE\<close>.\<close>

record response =
  success :: bool
  status_code :: int
  response :: val

text \<open>
  What a validator of the connection does with \<open>(operation_name, user_params)\<close>: it returns
  \<open>(is_valid, validation_report)\<close> or raises an exception whose text is \<open>str(e)\<close>.
\<close>

datatype vresult = Validated bool val | Thrown string

text \<open>
  The collaborator. \<open>conn_send_request\<close> sees the requests sent before (the server may
  answer the same request differently over time). The last four fields are behaviour that
  the module imports and that is not defined in it: \<^verbatim>\<open>equal_objects\<close> and the text of an
  \<^verbatim>\<open>FtdServerError\<close> (both of \<^verbatim>\<open>common.py\<close>), the text \<^verbatim>\<open>%s\<close> gives for a value, and
  \<^verbatim>\<open>int()\<close> of a string (\<open>None\<close> is its \<^verbatim>\<open>ValueError\<close>).
\<close>

record conn =
  conn_get_operation_spec :: "string \<Rightarrow> op_spec option"
  conn_get_operation_specs_by_model_name :: "string \<Rightarrow> (string \<times> op_spec) list"
  conn_send_request :: "request list \<Rightarrow> request \<Rightarrow> response"
  conn_validate_query_params :: "string \<Rightarrow> val \<Rightarrow> vresult"
  conn_validate_path_params :: "string \<Rightarrow> val \<Rightarrow> vresult"
  conn_validate_data :: "string \<Rightarrow> val \<Rightarrow> vresult"
  equal_objects :: "val \<Rightarrow> val \<Rightarrow> bool"
  server_error_str :: "val \<Rightarrow> int \<Rightarrow> string"
  format_s :: "val \<Rightarrow> string"
  int_of_str :: "string \<Rightarrow> int option"

text \<open>
  The caller's \<^verbatim>\<open>params\<close> dictionary. Each of its four keys is missing, bound to
  \<^verbatim>\<open>None\<close>, or bound to a mapping.
\<close>

datatype arg = Absent | Null | Given dict

record params =
  p_data :: arg
  p_query_params :: arg
  p_path_params :: arg
  p_filters :: arg

text \<open>
  The instance: the attributes set by \<^verbatim>\<open>__init__\<close>, and two logs of what reached the
  collaborator: the requests sent and the validator calls \<open>(field_name, user_params)\<close>.
\<close>

record resource =
  config_changed :: bool
  operation_spec_cache :: "string \<rightharpoonup> op_spec option"
  models_operations_specs_cache :: "string \<rightharpoonup> (string \<times> op_spec) list"
  check_mode :: bool
  sent :: "request list"
  validated :: "(string \<times> val) list"

definition DEFAULT_PAGE_SIZE :: int where
  "DEFAULT_PAGE_SIZE = 10"

definition DEFAULT_OFFSET :: int where
  "DEFAULT_OFFSET = 0"

definition UNPROCESSABLE_ENTITY_STATUS :: int where
  "UNPROCESSABLE_ENTITY_STATUS = 422"

definition INVALID_UUID_ERROR_MESSAGE :: string where
  "INVALID_UUID_ERROR_MESSAGE = ''Validation failed due to an invalid UUID''"

definition DUPLICATE_NAME_ERROR_MESSAGE :: string where
  "DUPLICATE_NAME_ERROR_MESSAGE = ''Validation failed due to a duplicate name''"

subsection \<open>Python primitives\<close>

fun startswith :: "string \<Rightarrow> string \<Rightarrow> bool" where
  "startswith s [] = True"
| "startswith [] (p # ps) = False"
| "startswith (c # cs) (p # ps) = (c = p \<and> startswith cs ps)"

definition endswith :: "string \<Rightarrow> string \<Rightarrow> bool" where
  "endswith s p = startswith (rev s) (rev p)"

text \<open>\<^verbatim>\<open>needle in haystack\<close> on strings.\<close>

fun str_contains :: "string \<Rightarrow> string \<Rightarrow> bool" where
  "str_contains [] needle = (needle = [])"
| "str_contains (c # cs) needle = (startswith (c # cs) needle \<or> str_contains cs needle)"

text \<open>Truth value of a value, as \<^verbatim>\<open>if v\<close>, \<^verbatim>\<open>not v\<close> and \<^verbatim>\<open>v or w\<close> take it.\<close>

fun truthy :: "val \<Rightarrow> bool" where
  "truthy VNone = False"
| "truthy (VBool b) = b"
| "truthy (VInt i) = (i \<noteq> 0)"
| "truthy (VStr s) = (s \<noteq> [])"
| "truthy (VList xs) = (xs \<noteq> [])"
| "truthy (VDict d) = (d \<noteq> [])"

text \<open>\<^verbatim>\<open>for item in v\<close>: a list gives its elements, a string its characters, a mapping its keys.\<close>

fun py_iter :: "val \<Rightarrow> pyerr + val list" where
  "py_iter (VList xs) = Inr xs"
| "py_iter (VStr s) = Inr (map (\<lambda>c. VStr [c]) s)"
| "py_iter (VDict d) = Inr (map (\<lambda>kv. VStr (fst kv)) d)"
| "py_iter v = Inl TypeError"

text \<open>\<^verbatim>\<open>v[key]\<close> with a string key.\<close>

fun py_getitem :: "val \<Rightarrow> string \<Rightarrow> pyerr + val" where
  "py_getitem (VDict d) k = (case map_of d k of None \<Rightarrow> Inl KeyError | Some v \<Rightarrow> Inr v)"
| "py_getitem v k = Inl TypeError"

text \<open>\<^verbatim>\<open>int(v)\<close>.\<close>

fun py_int :: "conn \<Rightarrow> val \<Rightarrow> pyerr + int" where
  "py_int c (VInt i) = Inr i"
| "py_int c (VBool b) = Inr (if b then 1 else 0)"
| "py_int c (VStr s) = (case int_of_str c s of None \<Rightarrow> Inl ValueError | Some i \<Rightarrow> Inr i)"
| "py_int c v = Inl TypeError"

text \<open>\<^verbatim>\<open>d.setdefault(k, v)\<close> on a dictionary.\<close>

definition setdefault :: "string \<Rightarrow> val \<Rightarrow> dict \<Rightarrow> dict" where
  "setdefault k v d = (case map_of d k of None \<Rightarrow> AList.update k v d | Some w \<Rightarrow> d)"

text \<open>
  Python's \<^verbatim>\<open>==\<close> on values: \<^verbatim>\<open>True == 1\<close> and \<^verbatim>\<open>False == 0\<close>, lists are equal
  elementwise, mappings when they have the same keys with equal values, in any order.
\<close>

function py_eq :: "val \<Rightarrow> val \<Rightarrow> bool" where
  "py_eq VNone VNone = True"
| "py_eq (VBool a) (VBool b) = (a = b)"
| "py_eq (VInt a) (VInt b) = (a = b)"
| "py_eq (VBool a) (VInt b) = ((if a then 1 else 0) = b)"
| "py_eq (VInt a) (VBool b) = (a = (if b then 1 else 0))"
| "py_eq (VStr a) (VStr b) = (a = b)"
| "py_eq (VList xs) (VList ys) =
     (length xs = length ys \<and> (\<forall>xy \<in> set (zip xs ys). py_eq (fst xy) (snd xy)))"
| "py_eq (VDict d) (VDict e) =
     (set (map fst d) = set (map fst e) \<and>
      (\<forall>kv \<in> set d. case map_of e (fst kv) of None \<Rightarrow> False | Some w \<Rightarrow> py_eq (snd kv) w))"
| "py_eq VNone (VBool b) = False"
| "py_eq VNone (VInt b) = False"
| "py_eq VNone (VStr b) = False"
| "py_eq VNone (VList b) = False"
| "py_eq VNone (VDict b) = False"
| "py_eq (VBool a) VNone = False"
| "py_eq (VBool a) (VStr b) = False"
| "py_eq (VBool a) (VList b) = False"
| "py_eq (VBool a) (VDict b) = False"
| "py_eq (VInt a) VNone = False"
| "py_eq (VInt a) (VStr b) = False"
| "py_eq (VInt a) (VList b) = False"
| "py_eq (VInt a) (VDict b) = False"
| "py_eq (VStr a) VNone = False"
| "py_eq (VStr a) (VBool b) = False"
| "py_eq (VStr a) (VInt b) = False"
| "py_eq (VStr a) (VList b) = False"
| "py_eq (VStr a) (VDict b) = False"
| "py_eq (VList a) VNone = False"
| "py_eq (VList a) (VBool b) = False"
| "py_eq (VList a) (VInt b) = False"
| "py_eq (VList a) (VStr b) = False"
| "py_eq (VList a) (VDict b) = False"
| "py_eq (VDict a) VNone = False"
| "py_eq (VDict a) (VBool b) = False"
| "py_eq (VDict a) (VInt b) = False"
| "py_eq (VDict a) (VStr b) = False"
| "py_eq (VDict a) (VList b) = False"
  by pat_completeness auto
termination
proof (relation "measure (\<lambda>p. size (fst p))")
  show "wf (measure (\<lambda>p. size (fst p)))"
    by simp
next
  fix xs ys :: "val list" and xy
  assume "xy \<in> set (zip xs ys)"
  then have "fst xy \<in> set xs"
    by (metis prod.collapse set_zip_leftD)
  then have "size (fst xy) < Suc (size_list size xs)"
    by (induction xs) auto
  then show "((fst xy, snd xy), (VList xs, VList ys)) \<in> measure (\<lambda>p. size (fst p))"
    by simp
next
  fix d e :: dict and kv w
  assume "kv \<in> set d"
  then have "size (snd kv) < Suc (size_list (\<lambda>x. Suc (size (snd x))) d)"
    by (induction d) auto
  moreover have "size_prod (\<lambda>x. 0) size = (\<lambda>x::string \<times> val. Suc (size (snd x)))"
    by (rule ext) (simp add: size_prod_simp)
  ultimately show "((snd kv, w), (VDict d, VDict e)) \<in> measure (\<lambda>p. size (fst p))"
    by simp
qed

text \<open>\<^verbatim>\<open>sep.join(parts)\<close>.\<close>

fun join :: "string \<Rightarrow> string list \<Rightarrow> string" where
  "join sep [] = []"
| "join sep [x] = x"
| "join sep (x # y # ys) = x @ sep @ join sep (y # ys)"

section \<open>The module-level functions\<close>

definition is_post_request :: "op_spec \<Rightarrow> bool" where
  "is_post_request operation_spec = (spec_method operation_spec = POST)"

definition is_put_request :: "op_spec \<Rightarrow> bool" where
  "is_put_request operation_spec = (spec_method operation_spec = PUT)"

text \<open>\<^verbatim>\<open>params.get(key, {})\<close>: the default is taken only when the key is missing.\<close>

fun get_or_empty :: "arg \<Rightarrow> val" where
  "get_or_empty Absent = VDict []"
| "get_or_empty Null = VNone"
| "get_or_empty (Given d) = VDict d"

definition get_user_params :: "params \<Rightarrow> val \<times> val \<times> val" where
  "get_user_params params =
     (get_or_empty (p_data params), get_or_empty (p_query_params params),
      get_or_empty (p_path_params params))"

definition get_request_params_from_spec :: "op_spec \<Rightarrow> string \<times> http_method" where
  "get_request_params_from_spec operation_spec = (spec_url operation_spec, spec_method operation_spec)"

subsection \<open>\<^verbatim>\<open>iterate_over_pageable_resource\<close>\<close>

text \<open>
  The generator is a pull iterator. Its state is where the generator is suspended: before
  its first statement (holding the \<^verbatim>\<open>query_params\<close> argument), inside the \<^verbatim>\<open>for\<close> loop
  (holding the items of the page not yet yielded and the query parameters of that page),
  or finished. \<open>gen_next\<close> is one \<^verbatim>\<open>next()\<close>: an error, \<open>None\<close> for \<^verbatim>\<open>StopIteration\<close>, or
  the item with the state to resume from. The resource function threads a state of its own.
\<close>

datatype gen = NotStarted "dict option" | InPage "val list" dict | Finished

type_synonym 's resource_func = "dict \<Rightarrow> 's \<Rightarrow> (error + val) \<times> 's"

text \<open>
  \<^verbatim>\<open>while result['items']:\<close> followed by the first step of \<^verbatim>\<open>for item in result['items']\<close>.
  A value that is true and iterable has an element (\<open>truthy_iter_nonempty\<close> below), so the
  branch for an empty iteration is never taken.
\<close>

definition first_of_page :: "val \<Rightarrow> dict \<Rightarrow> error + (val \<times> gen) option" where
  "first_of_page result qp =
     (case py_getitem result ''items'' of
        Inl e \<Rightarrow> Inl (PyError e)
      | Inr items \<Rightarrow>
          if \<not> truthy items then Inr None
          else (case py_iter items of
                  Inl e \<Rightarrow> Inl (PyError e)
                | Inr [] \<Rightarrow> Inr None
                | Inr (x # rest) \<Rightarrow> Inr (Some (x, InPage rest qp))))"

definition gen_fetch :: "'s resource_func \<Rightarrow> dict \<Rightarrow> 's \<Rightarrow> (error + (val \<times> gen) option) \<times> 's" where
  "gen_fetch resource_func qp s =
     (case resource_func qp s of
        (Inl e, s') \<Rightarrow> (Inl e, s')
      | (Inr result, s') \<Rightarrow> (first_of_page result qp, s'))"

text \<open>\<^verbatim>\<open>int(query_params['offset']) + int(query_params['limit'])\<close>, evaluated left to right.\<close>

definition next_offset :: "conn \<Rightarrow> dict \<Rightarrow> error + int" where
  "next_offset c qp =
     (case py_getitem (VDict qp) ''offset'' of
        Inl e \<Rightarrow> Inl (PyError e)
      | Inr ov \<Rightarrow>
        (case py_int c ov of
           Inl e \<Rightarrow> Inl (PyError e)
         | Inr off \<Rightarrow>
           (case py_getitem (VDict qp) ''limit'' of
              Inl e \<Rightarrow> Inl (PyError e)
            | Inr lv \<Rightarrow>
              (case py_int c lv of
                 Inl e \<Rightarrow> Inl (PyError e)
               | Inr lim \<Rightarrow> Inr (off + lim)))))"

definition initial_query_params :: "dict option \<Rightarrow> dict" where
  "initial_query_params q =
     setdefault ''offset'' (VInt DEFAULT_OFFSET)
       (setdefault ''limit'' (VInt DEFAULT_PAGE_SIZE) (case q of None \<Rightarrow> [] | Some d \<Rightarrow> d))"

fun gen_next :: "conn \<Rightarrow> 's resource_func \<Rightarrow> gen \<Rightarrow> 's \<Rightarrow> (error + (val \<times> gen) option) \<times> 's" where
  "gen_next c resource_func (NotStarted q) s = gen_fetch resource_func (initial_query_params q) s"
| "gen_next c resource_func (InPage (x # rest) qp) s = (Inr (Some (x, InPage rest qp)), s)"
| "gen_next c resource_func (InPage [] qp) s =
     (case next_offset c qp of
        Inl e \<Rightarrow> (Inl e, s)
      | Inr n \<Rightarrow> gen_fetch resource_func (AList.update ''offset'' (VInt n) qp) s)"
| "gen_next c resource_func Finished s = (Inr None, s)"

definition iterate_over_pageable_resource :: "dict option \<Rightarrow> gen" where
  "iterate_over_pageable_resource q = NotStarted q"

text \<open>
  The two ways the module consumes the generator. \<open>collect\<close> is the list comprehension
  \<^verbatim>\<open>[i for i in item_generator if keep(i)]\<close>, \<open>find_first\<close> is
  \<^verbatim>\<open>next((i for i in item_generator if keep(i)), None)\<close>, which stops pulling at the first
  match. Both may pull for ever from a server that never returns an empty page: the fuel
  bounds the number of pulls, and \<open>None\<close> means it ran out.
\<close>

fun collect :: "nat \<Rightarrow> conn \<Rightarrow> 's resource_func \<Rightarrow> (val \<Rightarrow> error + bool) \<Rightarrow> gen \<Rightarrow> 's
    \<Rightarrow> ((error + val list) \<times> 's) option" where
  "collect 0 c resource_func keep g s = None"
| "collect (Suc n) c resource_func keep g s =
     (case gen_next c resource_func g s of
        (Inl e, s') \<Rightarrow> Some (Inl e, s')
      | (Inr None, s') \<Rightarrow> Some (Inr [], s')
      | (Inr (Some (x, g')), s') \<Rightarrow>
        (case keep x of
           Inl e \<Rightarrow> Some (Inl e, s')
         | Inr b \<Rightarrow>
           (case collect n c resource_func keep g' s' of
              None \<Rightarrow> None
            | Some (Inl e, s'') \<Rightarrow> Some (Inl e, s'')
            | Some (Inr xs, s'') \<Rightarrow> Some (Inr (if b then x # xs else xs), s''))))"

fun find_first :: "nat \<Rightarrow> conn \<Rightarrow> 's resource_func \<Rightarrow> (val \<Rightarrow> error + bool) \<Rightarrow> gen \<Rightarrow> 's
    \<Rightarrow> ((error + val) \<times> 's) option" where
  "find_first 0 c resource_func keep g s = None"
| "find_first (Suc n) c resource_func keep g s =
     (case gen_next c resource_func g s of
        (Inl e, s') \<Rightarrow> Some (Inl e, s')
      | (Inr None, s') \<Rightarrow> Some (Inr VNone, s')
      | (Inr (Some (x, g')), s') \<Rightarrow>
        (case keep x of
           Inl e \<Rightarrow> Some (Inl e, s')
         | Inr b \<Rightarrow> if b then Some (Inr x, s') else find_first n c resource_func keep g' s'))"

section \<open>\<^verbatim>\<open>BaseConfigurationResource\<close>\<close>

definition init_resource :: "bool \<Rightarrow> resource" where
  "init_resource cm =
     \<lparr>config_changed = False, operation_spec_cache = Map.empty,
      models_operations_specs_cache = Map.empty, check_mode = cm, sent = [], validated = []\<rparr>"

definition get_operation_spec :: "conn \<Rightarrow> string \<Rightarrow> resource \<Rightarrow> op_spec option \<times> resource" where
  "get_operation_spec c operation_name s =
     (case operation_spec_cache s operation_name of
        None \<Rightarrow>
          (let v = conn_get_operation_spec c operation_name
           in (v, s\<lparr>operation_spec_cache := (operation_spec_cache s)(operation_name \<mapsto> v)\<rparr>))
      | Some v \<Rightarrow> (v, s))"

text \<open>\<^verbatim>\<open>cache.setdefault(op_name, op_spec)\<close> on the name-level cache.\<close>

definition cache_setdefault ::
    "(string \<rightharpoonup> op_spec option) \<Rightarrow> string \<times> op_spec \<Rightarrow> (string \<rightharpoonup> op_spec option)" where
  "cache_setdefault cache kv =
     (case cache (fst kv) of None \<Rightarrow> cache(fst kv \<mapsto> Some (snd kv)) | Some v \<Rightarrow> cache)"

definition get_operation_specs_by_model_name ::
    "conn \<Rightarrow> string \<Rightarrow> resource \<Rightarrow> (string \<times> op_spec) list \<times> resource" where
  "get_operation_specs_by_model_name c model_name s =
     (case models_operations_specs_cache s model_name of
        None \<Rightarrow>
          (let model_op_specs = conn_get_operation_specs_by_model_name c model_name;
               s1 = s\<lparr>models_operations_specs_cache :=
                        (models_operations_specs_cache s)(model_name \<mapsto> model_op_specs)\<rparr>;
               s2 = s1\<lparr>operation_spec_cache :=
                        foldl cache_setdefault (operation_spec_cache s1) model_op_specs\<rparr>
           in (model_op_specs, s2))
      | Some specs \<Rightarrow> (specs, s))"

subsection \<open>Validation, the check-mode gate and the dispatcher\<close>

text \<open>The nested \<^verbatim>\<open>validate\<close> of \<^verbatim>\<open>validate_params\<close>; the report is threaded with the instance.\<close>

definition validate ::
    "(string \<Rightarrow> val \<Rightarrow> vresult) \<Rightarrow> string \<Rightarrow> string \<Rightarrow> val \<Rightarrow> dict \<times> resource \<Rightarrow> dict \<times> resource" where
  "validate validation_method operation_name field_name user_params rs =
     (let key = ''Invalid '' @ field_name @ '' provided'';
          report = fst rs;
          s = (snd rs)\<lparr>validated := validated (snd rs) @ [(field_name, user_params)]\<rparr>
      in case validation_method operation_name user_params of
           Validated is_valid validation_report \<Rightarrow>
             (if \<not> is_valid then AList.update key validation_report report else report, s)
         | Thrown msg \<Rightarrow> (AList.update key (VStr msg) report, s))"

definition validate_params :: "conn \<Rightarrow> string \<Rightarrow> params \<Rightarrow> resource \<Rightarrow> (error + unit) \<times> resource" where
  "validate_params c operation_name params s =
     (let (op_spec, s0) = get_operation_spec c operation_name s;
          (data, qp, pp) = get_user_params params;
          rs1 = validate (conn_validate_query_params c) operation_name ''query_params'' qp ([], s0);
          rs2 = validate (conn_validate_path_params c) operation_name ''path_params'' pp rs1
      in case op_spec of
           None \<Rightarrow> (Inl (PyError TypeError), snd rs2)
         | Some sp \<Rightarrow>
           (let rs3 = (if is_post_request sp \<or> is_put_request sp
                       then validate (conn_validate_data c) operation_name ''data'' data rs2
                       else rs2)
            in if fst rs3 \<noteq> [] then (Inl (ValidationError (fst rs3)), snd rs3)
               else (Inr (), snd rs3)))"

definition stop_if_check_mode :: "resource \<Rightarrow> error + unit" where
  "stop_if_check_mode s = (if check_mode s then Inl CheckModeException else Inr ())"

text \<open>\<^verbatim>\<open>_send_request\<close>.\<close>

definition send_request :: "conn \<Rightarrow> request \<Rightarrow> resource \<Rightarrow> (error + val) \<times> resource" where
  "send_request c req s =
     (let resp = conn_send_request c (sent s) req;
          s1 = s\<lparr>sent := sent s @ [req]\<rparr>
      in if \<not> success resp then (Inl (FtdServerError (response resp) (status_code resp)), s1)
         else (Inr (response resp),
               if http_method req \<noteq> GET then s1\<lparr>config_changed := True\<rparr> else s1))"

subsection \<open>Classification\<close>

text \<open>
  Each test reads the specification through the cache. Subscripting a cached \<^verbatim>\<open>None\<close>
  is a \<^verbatim>\<open>TypeError\<close>; \<^verbatim>\<open>and\<close> evaluates its right operand only when the left one holds.
\<close>

definition is_add_operation :: "conn \<Rightarrow> string \<Rightarrow> resource \<Rightarrow> (error + bool) \<times> resource" where
  "is_add_operation c operation_name s =
     (let (operation_spec, s1) = get_operation_spec c operation_name s
      in if startswith operation_name ''add''
         then (case operation_spec of
                 None \<Rightarrow> (Inl (PyError TypeError), s1)
               | Some sp \<Rightarrow> (Inr (is_post_request sp), s1))
         else (Inr False, s1))"

definition is_edit_operation :: "conn \<Rightarrow> string \<Rightarrow> resource \<Rightarrow> (error + bool) \<times> resource" where
  "is_edit_operation c operation_name s =
     (let (operation_spec, s1) = get_operation_spec c operation_name s
      in if startswith operation_name ''edit''
         then (case operation_spec of
                 None \<Rightarrow> (Inl (PyError TypeError), s1)
               | Some sp \<Rightarrow> (Inr (is_put_request sp), s1))
         else (Inr False, s1))"

definition is_delete_operation :: "conn \<Rightarrow> string \<Rightarrow> resource \<Rightarrow> (error + bool) \<times> resource" where
  "is_delete_operation c operation_name s =
     (let (operation_spec, s1) = get_operation_spec c operation_name s
      in if startswith operation_name ''delete''
         then (case operation_spec of
                 None \<Rightarrow> (Inl (PyError TypeError), s1)
               | Some sp \<Rightarrow> (Inr (spec_method sp = DELETE), s1))
         else (Inr False, s1))"

definition is_find_all_operation :: "conn \<Rightarrow> string \<Rightarrow> resource \<Rightarrow> (error + bool) \<times> resource" where
  "is_find_all_operation c operation_name s =
     (let (operation_spec, s1) = get_operation_spec c operation_name s;
          is_get_list_operation = (startswith operation_name ''get'' \<and> endswith operation_name ''List'')
      in case operation_spec of
           None \<Rightarrow> (Inl (PyError TypeError), s1)
         | Some sp \<Rightarrow> (Inr (is_get_list_operation \<and> spec_method sp = GET), s1))"

text \<open>\<^verbatim>\<open>'filters' in params and params['filters']\<close>, taken as a truth value.\<close>

fun has_filters :: "arg \<Rightarrow> bool" where
  "has_filters (Given d) = (d \<noteq> [])"
| "has_filters a = False"

definition is_find_by_filter_operation ::
    "conn \<Rightarrow> string \<Rightarrow> params \<Rightarrow> resource \<Rightarrow> (error + bool) \<times> resource" where
  "is_find_by_filter_operation c operation_name params s =
     (case is_find_all_operation c operation_name s of
        (Inl e, s1) \<Rightarrow> (Inl e, s1)
      | (Inr is_find_all, s1) \<Rightarrow> (Inr (is_find_all \<and> has_filters (p_filters params)), s1))"

subsection \<open>The handlers\<close>

definition transform_filters_to_query_param :: "conn \<Rightarrow> dict \<Rightarrow> string" where
  "transform_filters_to_query_param c filter_params =
     join '';'' (map (\<lambda>kv. fst kv @ '':'' @ format_s c (snd kv)) filter_params)"

text \<open>
  \<^verbatim>\<open>viewitems(filter_params) <= viewitems(obj)\<close>: every pair of the filter is a pair of the
  object; an object that is no mapping has no items view.
\<close>

fun match_filters :: "dict \<Rightarrow> val \<Rightarrow> error + bool" where
  "match_filters filter_params (VDict obj) =
     Inr (list_all (\<lambda>kv. case map_of obj (fst kv) of None \<Rightarrow> False | Some w \<Rightarrow> py_eq w (snd kv))
            filter_params)"
| "match_filters filter_params v = Inl (PyError AttributeError)"

text \<open>\<^verbatim>\<open>params.get('filters') or {}\<close>.\<close>

fun filters_or_empty :: "arg \<Rightarrow> dict" where
  "filters_or_empty (Given d) = d"
| "filters_or_empty a = []"

text \<open>
  \<^verbatim>\<open>if filters: query_params['filters'] = ...\<close>. The assignment writes into the mapping that
  \<^verbatim>\<open>params.get('query_params', {})\<close> returned: the caller's own mapping when the key is there
  (so \<open>params\<close> changes), a fresh one when it is missing, and \<^verbatim>\<open>None\<close> cannot be assigned to.
  The result is the \<^verbatim>\<open>query_params\<close> handed to the generator and the caller's \<open>params\<close>.
\<close>

definition set_filters_query_param :: "conn \<Rightarrow> dict \<Rightarrow> params \<Rightarrow> error + (dict option \<times> params)" where
  "set_filters_query_param c flt params =
     (if flt \<noteq> [] then
        (case p_query_params params of
           Absent \<Rightarrow> Inr (Some [(''filters'', VStr (transform_filters_to_query_param c flt))], params)
         | Null \<Rightarrow> Inl (PyError TypeError)
         | Given qp \<Rightarrow>
             (let qp' = AList.update ''filters'' (VStr (transform_filters_to_query_param c flt)) qp
              in Inr (Some qp', params\<lparr>p_query_params := Given qp'\<rparr>)))
      else
        Inr (case p_query_params params of Absent \<Rightarrow> Some [] | Null \<Rightarrow> None | Given qp \<Rightarrow> Some qp,
             params))"

text \<open>\<^verbatim>\<open>partial(self._send_request, url_path=url, http_method=method, path_params=path_params)\<close>.\<close>

definition page_request :: "conn \<Rightarrow> string \<Rightarrow> http_method \<Rightarrow> val \<Rightarrow> resource resource_func" where
  "page_request c url method pp qp s =
     send_request c \<lparr>url_path = url, http_method = method, body_params = VNone,
                     path_params = pp, query_params = VDict qp\<rparr> s"

definition get_objects_by_filter ::
    "nat \<Rightarrow> conn \<Rightarrow> string \<Rightarrow> params \<Rightarrow> bool \<Rightarrow> resource \<Rightarrow> ((error + val) \<times> resource \<times> params) option" where
  "get_objects_by_filter fuel c operation_name params get_one_item s =
     (case validate_params c operation_name params s of
        (Inl e, s1) \<Rightarrow> Some (Inl e, s1, params)
      | (Inr u, s1) \<Rightarrow>
        (case stop_if_check_mode s1 of
           Inl e \<Rightarrow> Some (Inl e, s1, params)
         | Inr u \<Rightarrow>
           (let (data, qp, pp) = get_user_params params;
                (op_spec, s2) = get_operation_spec c operation_name s1
            in case op_spec of
                 None \<Rightarrow> Some (Inl (PyError TypeError), s2, params)
               | Some sp \<Rightarrow>
                 (let (url, method) = get_request_params_from_spec sp;
                      flt = filters_or_empty (p_filters params)
                  in case set_filters_query_param c flt params of
                       Inl e \<Rightarrow> Some (Inl e, s2, params)
                     | Inr (q, params') \<Rightarrow>
                       (let item_generator = iterate_over_pageable_resource q
                        in if get_one_item then
                             (case find_first fuel c (page_request c url method pp) (match_filters flt)
                                     item_generator s2 of
                                None \<Rightarrow> None
                              | Some (Inl e, s3) \<Rightarrow> Some (Inl e, s3, params')
                              | Some (Inr x, s3) \<Rightarrow> Some (Inr x, s3, params'))
                           else
                             (case collect fuel c (page_request c url method pp) (match_filters flt)
                                     item_generator s2 of
                                None \<Rightarrow> None
                              | Some (Inl e, s3) \<Rightarrow> Some (Inl e, s3, params')
                              | Some (Inr xs, s3) \<Rightarrow> Some (Inr (VList xs), s3, params')))))))"

fun find_all_among :: "conn \<Rightarrow> string list \<Rightarrow> resource \<Rightarrow> (error + string option) \<times> resource" where
  "find_all_among c [] s = (Inr None, s)"
| "find_all_among c (op_name # rest) s =
     (case is_find_all_operation c op_name s of
        (Inl e, s1) \<Rightarrow> (Inl e, s1)
      | (Inr b, s1) \<Rightarrow> if b then (Inr (Some op_name), s1) else find_all_among c rest s1)"

text \<open>\<^verbatim>\<open>_get_find_all_operation_name\<close>: the first key of the model's operations that is a FindAll.\<close>

definition get_find_all_operation_name ::
    "conn \<Rightarrow> string \<Rightarrow> resource \<Rightarrow> (error + string option) \<times> resource" where
  "get_find_all_operation_name c model_name s =
     (let (operations, s1) = get_operation_specs_by_model_name c model_name s
      in if operations \<noteq> [] then find_all_among c (map fst operations) s1 else (Inr None, s1))"

definition is_duplicate_name_error :: "conn \<Rightarrow> val \<Rightarrow> int \<Rightarrow> bool" where
  "is_duplicate_name_error c body code =
     (code = UNPROCESSABLE_ENTITY_STATUS \<and>
      str_contains (server_error_str c body code) DUPLICATE_NAME_ERROR_MESSAGE)"

definition is_invalid_uuid_error :: "conn \<Rightarrow> val \<Rightarrow> int \<Rightarrow> bool" where
  "is_invalid_uuid_error c body code =
     (code = UNPROCESSABLE_ENTITY_STATUS \<and>
      str_contains (server_error_str c body code) INVALID_UUID_ERROR_MESSAGE)"

text \<open>
  \<^verbatim>\<open>if 'filters' not in params: params['filters'] = {'name': data['name']}\<close>, where
  \<^verbatim>\<open>data = params['data']\<close> has been read just before. The result is the caller's \<open>params\<close>
  after the statement.
\<close>

definition default_filters :: "val \<Rightarrow> params \<Rightarrow> error + params" where
  "default_filters data params =
     (if p_filters params = Absent then
        (case py_getitem data ''name'' of
           Inl e \<Rightarrow> Inl (PyError e)
         | Inr nm \<Rightarrow> Inr (params\<lparr>p_filters := Given [(''name'', nm)]\<rparr>))
      else Inr params)"

definition DIFFERENT_OBJECT_MESSAGE :: string where
  "DIFFERENT_OBJECT_MESSAGE =
     ''Cannot add new object. An object with the same name but different parameters already exists.''"

text \<open>\<^verbatim>\<open>_check_if_the_same_object\<close>; \<open>e\<close> is the server error of the failed create.\<close>

definition check_if_the_same_object ::
    "nat \<Rightarrow> conn \<Rightarrow> op_spec \<Rightarrow> params \<Rightarrow> error \<Rightarrow> resource \<Rightarrow> ((error + val) \<times> resource \<times> params) option" where
  "check_if_the_same_object fuel c op_spec params e s =
     (case get_find_all_operation_name c (spec_model_name op_spec) s of
        (Inl err, s1) \<Rightarrow> Some (Inl err, s1, params)
      | (Inr None, s1) \<Rightarrow> Some (Inl e, s1, params)
      | (Inr (Some find_operation), s1) \<Rightarrow>
          if find_operation = [] then Some (Inl e, s1, params)
          else
            (case p_data params of
               Absent \<Rightarrow> Some (Inl (PyError KeyError), s1, params)
             | a \<Rightarrow>
               (let data = get_or_empty a
                in case default_filters data params of
                     Inl err \<Rightarrow> Some (Inl err, s1, params)
                   | Inr params1 \<Rightarrow>
                     (case get_objects_by_filter fuel c find_operation params1 True s1 of
                        None \<Rightarrow> None
                      | Some (Inl err, s2, params2) \<Rightarrow> Some (Inl err, s2, params2)
                      | Some (Inr existing_obj, s2, params2) \<Rightarrow>
                          if existing_obj \<noteq> VNone then
                            (if equal_objects c existing_obj data then Some (Inr existing_obj, s2, params2)
                             else Some (Inl (FtdConfigurationError DIFFERENT_OBJECT_MESSAGE
                                               (Some existing_obj)), s2, params2))
                          else Some (Inl e, s2, params2)))))"

definition add_object ::
    "nat \<Rightarrow> conn \<Rightarrow> string \<Rightarrow> params \<Rightarrow> resource \<Rightarrow> ((error + val) \<times> resource \<times> params) option" where
  "add_object fuel c operation_name params s =
     (case validate_params c operation_name params s of
        (Inl e, s1) \<Rightarrow> Some (Inl e, s1, params)
      | (Inr u, s1) \<Rightarrow>
        (case stop_if_check_mode s1 of
           Inl e \<Rightarrow> Some (Inl e, s1, params)
         | Inr u \<Rightarrow>
           (let (data, qp, pp) = get_user_params params;
                (op_spec, s2) = get_operation_spec c operation_name s1
            in case op_spec of
                 None \<Rightarrow> Some (Inl (PyError TypeError), s2, params)
               | Some sp \<Rightarrow>
                 (let (url, method) = get_request_params_from_spec sp
                  in case send_request c \<lparr>url_path = url, http_method = method, body_params = data,
                                           path_params = pp, query_params = qp\<rparr> s2 of
                       (Inr v, s3) \<Rightarrow> Some (Inr v, s3, params)
                     | (Inl (FtdServerError body code), s3) \<Rightarrow>
                         if is_duplicate_name_error c body code
                         then check_if_the_same_object fuel c sp params (FtdServerError body code) s3
                         else Some (Inl (FtdServerError body code), s3, params)
                     | (Inl e, s3) \<Rightarrow> Some (Inl e, s3, params)))))"

definition NOT_EXIST_MESSAGE :: string where
  "NOT_EXIST_MESSAGE = ''Referenced object does not exist''"

definition delete_object :: "conn \<Rightarrow> string \<Rightarrow> params \<Rightarrow> resource \<Rightarrow> (error + val) \<times> resource" where
  "delete_object c operation_name params s =
     (case validate_params c operation_name params s of
        (Inl e, s1) \<Rightarrow> (Inl e, s1)
      | (Inr u, s1) \<Rightarrow>
        (case stop_if_check_mode s1 of
           Inl e \<Rightarrow> (Inl e, s1)
         | Inr u \<Rightarrow>
           (let (data, qp, pp) = get_user_params params;
                (op_spec, s2) = get_operation_spec c operation_name s1
            in case op_spec of
                 None \<Rightarrow> (Inl (PyError TypeError), s2)
               | Some sp \<Rightarrow>
                 (let (url, method) = get_request_params_from_spec sp
                  in case send_request c \<lparr>url_path = url, http_method = method, body_params = VNone,
                                           path_params = pp, query_params = VNone\<rparr> s2 of
                       (Inr v, s3) \<Rightarrow> (Inr v, s3)
                     | (Inl (FtdServerError body code), s3) \<Rightarrow>
                         if is_invalid_uuid_error c body code
                         then (Inr (VDict [(''status'', VStr NOT_EXIST_MESSAGE)]), s3)
                         else (Inl (FtdServerError body code), s3)
                     | (Inl e, s3) \<Rightarrow> (Inl e, s3)))))"

definition edit_object :: "conn \<Rightarrow> string \<Rightarrow> params \<Rightarrow> resource \<Rightarrow> (error + val) \<times> resource" where
  "edit_object c operation_name params s =
     (case validate_params c operation_name params s of
        (Inl e, s1) \<Rightarrow> (Inl e, s1)
      | (Inr u, s1) \<Rightarrow>
        (case stop_if_check_mode s1 of
           Inl e \<Rightarrow> (Inl e, s1)
         | Inr u \<Rightarrow>
           (let (data, qp, pp) = get_user_params params;
                (op_spec, s2) = get_operation_spec c operation_name s1
            in case op_spec of
                 None \<Rightarrow> (Inl (PyError TypeError), s2)
               | Some sp \<Rightarrow>
                 (let (url, method) = get_request_params_from_spec sp
                  in case send_request c \<lparr>url_path = url, http_method = GET, body_params = VNone,
                                           path_params = pp, query_params = VNone\<rparr> s2 of
                       (Inl e, s3) \<Rightarrow> (Inl e, s3)
                     | (Inr existing_object, s3) \<Rightarrow>
                         if \<not> truthy existing_object
                         then (Inl (FtdConfigurationError NOT_EXIST_MESSAGE None), s3)
                         else if equal_objects c existing_object data then (Inr existing_object, s3)
                         else send_request c \<lparr>url_path = url, http_method = method, body_params = data,
                                               path_params = pp, query_params = qp\<rparr> s3))))"

definition send_general_request :: "conn \<Rightarrow> string \<Rightarrow> params \<Rightarrow> resource \<Rightarrow> (error + val) \<times> resource" where
  "send_general_request c operation_name params s =
     (case validate_params c operation_name params s of
        (Inl e, s1) \<Rightarrow> (Inl e, s1)
      | (Inr u, s1) \<Rightarrow>
        (case stop_if_check_mode s1 of
           Inl e \<Rightarrow> (Inl e, s1)
         | Inr u \<Rightarrow>
           (let (data, qp, pp) = get_user_params params;
                (op_spec, s2) = get_operation_spec c operation_name s1
            in case op_spec of
                 None \<Rightarrow> (Inl (PyError TypeError), s2)
               | Some sp \<Rightarrow>
                 (let (url, method) = get_request_params_from_spec sp
                  in send_request c \<lparr>url_path = url, http_method = method, body_params = data,
                                      path_params = pp, query_params = qp\<rparr> s2))))"

text \<open>Handlers that leave the caller's \<open>params\<close> alone, in the shape of those that do not.\<close>

definition with_params :: "params \<Rightarrow> (error + val) \<times> resource \<Rightarrow> ((error + val) \<times> resource \<times> params) option" where
  "with_params params r = Some (fst r, snd r, params)"

definition crud_operation ::
    "nat \<Rightarrow> conn \<Rightarrow> string \<Rightarrow> params \<Rightarrow> resource \<Rightarrow> ((error + val) \<times> resource \<times> params) option" where
  "crud_operation fuel c op_name params s =
     (let (op_spec, s0) = get_operation_spec c op_name s
      in case op_spec of
           None \<Rightarrow> Some (Inl (FtdInvalidOperationNameError op_name), s0, params)
         | Some sp \<Rightarrow>
           (case is_add_operation c op_name s0 of
              (Inl e, s1) \<Rightarrow> Some (Inl e, s1, params)
            | (Inr is_add, s1) \<Rightarrow>
              if is_add then add_object fuel c op_name params s1
              else
                (case is_edit_operation c op_name s1 of
                   (Inl e, s2) \<Rightarrow> Some (Inl e, s2, params)
                 | (Inr is_edit, s2) \<Rightarrow>
                   if is_edit then with_params params (edit_object c op_name params s2)
                   else
                     (case is_delete_operation c op_name s2 of
                        (Inl e, s3) \<Rightarrow> Some (Inl e, s3, params)
                      | (Inr is_delete, s3) \<Rightarrow>
                        if is_delete then with_params params (delete_object c op_name params s3)
                        else
                          (case is_find_by_filter_operation c op_name params s3 of
                             (Inl e, s4) \<Rightarrow> Some (Inl e, s4, params)
                           | (Inr is_find, s4) \<Rightarrow>
                             if is_find then get_objects_by_filter fuel c op_name params False s4
                             else with_params params (send_general_request c op_name params s4))))))"

section \<open>What the specification says, as definitions\<close>

text \<open>
  The validation report as the specification describes it: one entry per failing category,
  under the category's label, for \<open>query_params\<close>, \<open>path_params\<close> and, when the method is
  POST or PUT, \<open>data\<close>. A thrown failure is recorded as its text.
\<close>

definition failure_entry :: "string \<Rightarrow> vresult \<Rightarrow> dict" where
  "failure_entry field_name r =
     (case r of
        Validated is_valid rep \<Rightarrow>
          if is_valid then [] else [(''Invalid '' @ field_name @ '' provided'', rep)]
      | Thrown msg \<Rightarrow> [(''Invalid '' @ field_name @ '' provided'', VStr msg)])"

definition validation_report :: "conn \<Rightarrow> string \<Rightarrow> params \<Rightarrow> op_spec \<Rightarrow> dict" where
  "validation_report c n p sp =
     failure_entry ''query_params'' (conn_validate_query_params c n (get_or_empty (p_query_params p))) @
     failure_entry ''path_params'' (conn_validate_path_params c n (get_or_empty (p_path_params p))) @
     (if spec_method sp = POST \<or> spec_method sp = PUT
      then failure_entry ''data'' (conn_validate_data c n (get_or_empty (p_data p))) else [])"

text \<open>The validator calls one validation makes, in order.\<close>

definition validator_calls :: "params \<Rightarrow> op_spec \<Rightarrow> (string \<times> val) list" where
  "validator_calls p sp =
     [(''query_params'', get_or_empty (p_query_params p)),
      (''path_params'', get_or_empty (p_path_params p))] @
     (if spec_method sp = POST \<or> spec_method sp = PUT then [(''data'', get_or_empty (p_data p))] else [])"

text \<open>The instance after the validation of one call: the specification is cached, the calls are logged.\<close>

definition after_validation :: "conn \<Rightarrow> string \<Rightarrow> params \<Rightarrow> op_spec \<Rightarrow> resource \<Rightarrow> resource" where
  "after_validation c n p sp s =
     (snd (get_operation_spec c n s))\<lparr>validated := validated s @ validator_calls p sp\<rparr>"

section \<open>A concrete collaborator\<close>

text \<open>
  A small installation used to run the handlers on concrete inputs: five operations on one
  model, validators that want path parameters to be a mapping and a name in the data, and a
  server described by its answer to a create request and by the objects it stores.
\<close>

definition demo_specs :: "(string \<times> op_spec) list" where
  "demo_specs =
     [(''addNetwork'', \<lparr>spec_url = ''/object/networks'', spec_method = POST, spec_model_name = ''Network''\<rparr>),
      (''editNetwork'', \<lparr>spec_url = ''/object/networks/{objId}'', spec_method = PUT, spec_model_name = ''Network''\<rparr>),
      (''deleteNetwork'', \<lparr>spec_url = ''/object/networks/{objId}'', spec_method = DELETE, spec_model_name = ''Network''\<rparr>),
      (''getNetwork'', \<lparr>spec_url = ''/object/networks/{objId}'', spec_method = GET, spec_model_name = ''Network''\<rparr>),
      (''getNetworkList'', \<lparr>spec_url = ''/object/networks'', spec_method = GET, spec_model_name = ''Network''\<rparr>)]"

definition demo_error :: "string \<Rightarrow> response" where
  "demo_error msg = \<lparr>success = False, status_code = 422, response = VDict [(''message'', VStr msg)]\<rparr>"

definition demo_server :: "response \<Rightarrow> val list \<Rightarrow> request list \<Rightarrow> request \<Rightarrow> response" where
  "demo_server create_answer stored history req =
     (case http_method req of
        POST \<Rightarrow> create_answer
      | DELETE \<Rightarrow> demo_error ''Validation failed due to an invalid UUID''
      | PUT \<Rightarrow> \<lparr>success = True, status_code = 200, response = body_params req\<rparr>
      | GET \<Rightarrow>
          if url_path req = ''/object/networks''
          then \<lparr>success = True, status_code = 200,
                response = VDict [(''items'',
                   if py_getitem (query_params req) ''offset'' = Inr (VInt 0) then VList stored else VList [])]\<rparr>
          else \<lparr>success = True, status_code = 200,
                response = (case stored of [] \<Rightarrow> VDict [] | x # xs \<Rightarrow> x)\<rparr>
      | OtherMethod m \<Rightarrow> \<lparr>success = False, status_code = 405, response = VNone\<rparr>)"

definition demo_equal :: "val \<Rightarrow> val \<Rightarrow> bool" where
  "demo_equal a b = (case b of VDict d \<Rightarrow> match_filters d a = Inr True | v \<Rightarrow> False)"

definition demo_conn :: "(string \<times> op_spec) list \<Rightarrow> (request list \<Rightarrow> request \<Rightarrow> response) \<Rightarrow> conn" where
  "demo_conn specs server =
     \<lparr>conn_get_operation_spec = map_of specs,
      conn_get_operation_specs_by_model_name = (\<lambda>m. filter (\<lambda>kv. spec_model_name (snd kv) = m) specs),
      conn_send_request = server,
      conn_validate_query_params = (\<lambda>n v. Validated True VNone),
      conn_validate_path_params = (\<lambda>n v. if v = VNone then Thrown ''path_params is None'' else Validated True VNone),
      conn_validate_data =
        (\<lambda>n v. case py_getitem v ''name'' of
                  Inl e \<Rightarrow> Validated False (VDict [(''required'', VList [VStr ''name''])])
                | Inr w \<Rightarrow> Validated True VNone),
      equal_objects = demo_equal,
      server_error_str = (\<lambda>body code. case py_getitem body ''message'' of Inr (VStr m) \<Rightarrow> m | r \<Rightarrow> []),
      format_s = (\<lambda>v. case v of VStr x \<Rightarrow> x | w \<Rightarrow> ''?''),
      int_of_str = (\<lambda>x. None)\<rparr>"

definition demo_object :: "int \<Rightarrow> val" where
  "demo_object a = VDict [(''name'', VStr ''x''), (''a'', VInt a)]"

definition demo_params :: "arg \<Rightarrow> params" where
  "demo_params d =
     \<lparr>p_data = d, p_query_params = Absent, p_path_params = Given [(''objId'', VStr ''1'')], p_filters = Absent\<rparr>"

text \<open>
  What one call may do to the instance, seen from outside: requests are only added to the
  log, the flag is not reset, and the mode stays.
\<close>

definition grows :: "resource \<Rightarrow> resource \<Rightarrow> bool" where
  "grows s s' =
     (take (length (sent s)) (sent s') = sent s \<and> (config_changed s \<longrightarrow> config_changed s') \<and>
      check_mode s' = check_mode s)"

text \<open>
  The two-level cache. A sequence of calls of the two cache methods, run in order; the
  invariant of the specification: every operation name of a cached model has an entry in the
  name-level cache; and a metadata source whose two queries agree.
\<close>

datatype cache_call = GetSpec string | GetSpecsByModel string

fun run_call :: "conn \<Rightarrow> resource \<Rightarrow> cache_call \<Rightarrow> resource" where
  "run_call c s (GetSpec n) = snd (get_operation_spec c n s)"
| "run_call c s (GetSpecsByModel m) = snd (get_operation_specs_by_model_name c m s)"

definition run_calls :: "conn \<Rightarrow> cache_call list \<Rightarrow> resource \<Rightarrow> resource" where
  "run_calls c calls s = foldl (run_call c) s calls"

definition cache_inv :: "resource \<Rightarrow> bool" where
  "cache_inv s =
     (\<forall>m specs. models_operations_specs_cache s m = Some specs \<longrightarrow>
        (\<forall>kv \<in> set specs. operation_spec_cache s (fst kv) \<noteq> None))"

definition cache_same_spec :: "resource \<Rightarrow> bool" where
  "cache_same_spec s =
     (\<forall>m specs n sp. models_operations_specs_cache s m = Some specs \<longrightarrow> map_of specs n = Some sp \<longrightarrow>
        operation_spec_cache s n = Some (Some sp))"

definition consistent_source :: "conn \<Rightarrow> bool" where
  "consistent_source c =
     (\<forall>m n sp. map_of (conn_get_operation_specs_by_model_name c m) n = Some sp \<longrightarrow>
        conn_get_operation_spec c n = Some sp)"

definition cache_from_source :: "conn \<Rightarrow> resource \<Rightarrow> bool" where
  "cache_from_source c s =
     ((\<forall>n v. operation_spec_cache s n = Some v \<longrightarrow> v = conn_get_operation_spec c n) \<and>
      (\<forall>m specs. models_operations_specs_cache s m = Some specs \<longrightarrow>
         specs = conn_get_operation_specs_by_model_name c m))"

text \<open>A metadata source that knows the operations by model but none by name.\<close>

definition demo_split_source :: conn where
  "demo_split_source =
     (demo_conn demo_specs (demo_server (demo_error ''no'') []))\<lparr>conn_get_operation_spec := \<lambda>n. None\<rparr>"

text \<open>
  The pagination of the specification. A resource function that answers by a function of
  the query parameters and logs them; the query parameters of the \<open>i\<close>-th fetch; the value
  a query parameter starts with (the supplied one, else the default); the item list of a
  page; and the filter that keeps every item.
\<close>

definition logged :: "(dict \<Rightarrow> error + val) \<Rightarrow> dict list resource_func" where
  "logged f qp log = (f qp, log @ [qp])"

definition page_params :: "dict \<Rightarrow> int \<Rightarrow> int \<Rightarrow> nat \<Rightarrow> dict" where
  "page_params qp0 off lim i =
     (if i = 0 then qp0 else AList.update ''offset'' (VInt (off + int i * lim)) qp0)"

definition supplied :: "dict option \<Rightarrow> string \<Rightarrow> val \<Rightarrow> val" where
  "supplied q k dflt =
     (case q of None \<Rightarrow> dflt | Some d \<Rightarrow> (case map_of d k of None \<Rightarrow> dflt | Some v \<Rightarrow> v))"

definition page_items :: "error + val \<Rightarrow> val option" where
  "page_items r =
     (case r of
        Inl e \<Rightarrow> None
      | Inr body \<Rightarrow> (case py_getitem body ''items'' of Inl e \<Rightarrow> None | Inr v \<Rightarrow> Some v))"

definition every_item :: "val \<Rightarrow> error + bool" where
  "every_item x = Inr True"

text \<open>A server with 25 items that serves the slice the offset and the limit ask for.\<close>

definition demo_items :: "val list" where
  "demo_items = map VInt [0, 1, 2, 3, 4, 5, 6, 7, 8, 9, 10, 11, 12, 13, 14, 15, 16, 17, 18, 19,
                          20, 21, 22, 23, 24]"

definition demo_pages :: "dict \<Rightarrow> error + val" where
  "demo_pages qp =
     (case (map_of qp ''offset'', map_of qp ''limit'') of
        (Some (VInt off), Some (VInt lim)) \<Rightarrow>
          Inr (VDict [(''items'', VList (take (nat lim) (drop (nat off) demo_items)))])
      | other \<Rightarrow> Inl (FtdServerError VNone 400))"



section \<open>Basic facts\<close>

lemma truthy_iter_nonempty: "truthy v \<Longrightarrow> py_iter v = Inr xs \<Longrightarrow> xs \<noteq> []"
  by (cases v) auto

lemma get_operation_spec_frame:
  "sent (snd (get_operation_spec c n s)) = sent s"
  "config_changed (snd (get_operation_spec c n s)) = config_changed s"
  "check_mode (snd (get_operation_spec c n s)) = check_mode s"
  "validated (snd (get_operation_spec c n s)) = validated s"
  "models_operations_specs_cache (snd (get_operation_spec c n s)) = models_operations_specs_cache s"
  by (simp_all add: get_operation_spec_def Let_def split: option.splits)

lemma get_operation_spec_cached:
  "get_operation_spec c n (snd (get_operation_spec c n s)) = get_operation_spec c n s"
  by (simp add: get_operation_spec_def Let_def split: option.splits)

lemma validate_eq:
  "validate m n f u (r, s) =
     (case failure_entry f (m n u) of [] \<Rightarrow> r | kv # rest \<Rightarrow> AList.update (fst kv) (snd kv) r,
      s\<lparr>validated := validated s @ [(f, u)]\<rparr>)"
  by (simp add: validate_def failure_entry_def Let_def split: vresult.splits)

lemma validate_params_report:
  assumes "fst (get_operation_spec c n s) = Some sp"
  shows "validate_params c n p s =
     (if validation_report c n p sp = [] then Inr () else Inl (ValidationError (validation_report c n p sp)),
      after_validation c n p sp s)"
proof -
  obtain s0 where g: "get_operation_spec c n s = (Some sp, s0)"
    using assms by (cases "get_operation_spec c n s") simp
  have v0: "validated s0 = validated s"
    using get_operation_spec_frame(4) [of c n s] g by simp
  show ?thesis
    unfolding validate_params_def g
    by (simp add: v0 after_validation_def g Let_def get_user_params_def validate_eq validation_report_def
        validator_calls_def is_post_request_def is_put_request_def failure_entry_def split: vresult.splits)
qed

lemma after_validation_frame:
  "sent (after_validation c n p sp s) = sent s"
  "config_changed (after_validation c n p sp s) = config_changed s"
  "check_mode (after_validation c n p sp s) = check_mode s"
  "models_operations_specs_cache (after_validation c n p sp s) = models_operations_specs_cache s"
  by (simp_all add: after_validation_def get_operation_spec_frame)

lemma after_validation_spec:
  assumes "fst (get_operation_spec c n s) = Some sp"
  shows "get_operation_spec c n (after_validation c n p sp s) = (Some sp, after_validation c n p sp s)"
  using assms
  by (auto simp: after_validation_def get_operation_spec_def Let_def split: option.splits)

lemma delete_object_eq:
  assumes "fst (get_operation_spec c n s) = Some sp"
  shows "delete_object c n p s =
     (if validation_report c n p sp \<noteq> [] then
        (Inl (ValidationError (validation_report c n p sp)), after_validation c n p sp s)
      else if check_mode s then (Inl CheckModeException, after_validation c n p sp s)
      else
        (case send_request c \<lparr>url_path = spec_url sp, http_method = spec_method sp, body_params = VNone,
                 path_params = get_or_empty (p_path_params p), query_params = VNone\<rparr>
                (after_validation c n p sp s) of
           (Inr v, s3) \<Rightarrow> (Inr v, s3)
         | (Inl (FtdServerError body code), s3) \<Rightarrow>
             if is_invalid_uuid_error c body code
             then (Inr (VDict [(''status'', VStr NOT_EXIST_MESSAGE)]), s3)
             else (Inl (FtdServerError body code), s3)
         | (Inl e, s3) \<Rightarrow> (Inl e, s3)))"
  unfolding delete_object_def
  by (simp add: validate_params_report [OF assms] after_validation_spec [OF assms]
      stop_if_check_mode_def after_validation_frame get_user_params_def get_request_params_from_spec_def)

lemma edit_object_eq:
  assumes "fst (get_operation_spec c n s) = Some sp"
  shows "edit_object c n p s =
     (if validation_report c n p sp \<noteq> [] then
        (Inl (ValidationError (validation_report c n p sp)), after_validation c n p sp s)
      else if check_mode s then (Inl CheckModeException, after_validation c n p sp s)
      else
        (case send_request c \<lparr>url_path = spec_url sp, http_method = GET, body_params = VNone,
                 path_params = get_or_empty (p_path_params p), query_params = VNone\<rparr>
                (after_validation c n p sp s) of
           (Inl e, s3) \<Rightarrow> (Inl e, s3)
         | (Inr existing_object, s3) \<Rightarrow>
             if \<not> truthy existing_object
             then (Inl (FtdConfigurationError NOT_EXIST_MESSAGE None), s3)
             else if equal_objects c existing_object (get_or_empty (p_data p)) then (Inr existing_object, s3)
             else send_request c \<lparr>url_path = spec_url sp, http_method = spec_method sp,
                                   body_params = get_or_empty (p_data p),
                                   path_params = get_or_empty (p_path_params p),
                                   query_params = get_or_empty (p_query_params p)\<rparr> s3))"
  unfolding edit_object_def
  by (simp add: validate_params_report [OF assms] after_validation_spec [OF assms]
      stop_if_check_mode_def after_validation_frame get_user_params_def get_request_params_from_spec_def)

lemma send_general_request_eq:
  assumes "fst (get_operation_spec c n s) = Some sp"
  shows "send_general_request c n p s =
     (if validation_report c n p sp \<noteq> [] then
        (Inl (ValidationError (validation_report c n p sp)), after_validation c n p sp s)
      else if check_mode s then (Inl CheckModeException, after_validation c n p sp s)
      else send_request c \<lparr>url_path = spec_url sp, http_method = spec_method sp,
                            body_params = get_or_empty (p_data p),
                            path_params = get_or_empty (p_path_params p),
                            query_params = get_or_empty (p_query_params p)\<rparr>
             (after_validation c n p sp s))"
  unfolding send_general_request_def
  by (simp add: validate_params_report [OF assms] after_validation_spec [OF assms]
      stop_if_check_mode_def after_validation_frame get_user_params_def get_request_params_from_spec_def)

lemma add_object_eq:
  assumes "fst (get_operation_spec c n s) = Some sp"
  shows "add_object fuel c n p s =
     (if validation_report c n p sp \<noteq> [] then
        Some (Inl (ValidationError (validation_report c n p sp)), after_validation c n p sp s, p)
      else if check_mode s then Some (Inl CheckModeException, after_validation c n p sp s, p)
      else
        (case send_request c \<lparr>url_path = spec_url sp, http_method = spec_method sp,
                                body_params = get_or_empty (p_data p),
                                path_params = get_or_empty (p_path_params p),
                                query_params = get_or_empty (p_query_params p)\<rparr>
                (after_validation c n p sp s) of
           (Inr v, s3) \<Rightarrow> Some (Inr v, s3, p)
         | (Inl (FtdServerError body code), s3) \<Rightarrow>
             if is_duplicate_name_error c body code
             then check_if_the_same_object fuel c sp p (FtdServerError body code) s3
             else Some (Inl (FtdServerError body code), s3, p)
         | (Inl e, s3) \<Rightarrow> Some (Inl e, s3, p)))"
  unfolding add_object_def
  by (simp add: validate_params_report [OF assms] after_validation_spec [OF assms]
      stop_if_check_mode_def after_validation_frame get_user_params_def get_request_params_from_spec_def)

lemma get_objects_by_filter_eq:
  assumes "fst (get_operation_spec c n s) = Some sp"
  shows "get_objects_by_filter fuel c n p one s =
     (if validation_report c n p sp \<noteq> [] then
        Some (Inl (ValidationError (validation_report c n p sp)), after_validation c n p sp s, p)
      else if check_mode s then Some (Inl CheckModeException, after_validation c n p sp s, p)
      else
        (case set_filters_query_param c (filters_or_empty (p_filters p)) p of
           Inl e \<Rightarrow> Some (Inl e, after_validation c n p sp s, p)
         | Inr (q, p') \<Rightarrow>
             if one then
               (case find_first fuel c
                       (page_request c (spec_url sp) (spec_method sp) (get_or_empty (p_path_params p)))
                       (match_filters (filters_or_empty (p_filters p)))
                       (iterate_over_pageable_resource q) (after_validation c n p sp s) of
                  None \<Rightarrow> None
                | Some (Inl e, s3) \<Rightarrow> Some (Inl e, s3, p')
                | Some (Inr x, s3) \<Rightarrow> Some (Inr x, s3, p'))
             else
               (case collect fuel c
                       (page_request c (spec_url sp) (spec_method sp) (get_or_empty (p_path_params p)))
                       (match_filters (filters_or_empty (p_filters p)))
                       (iterate_over_pageable_resource q) (after_validation c n p sp s) of
                  None \<Rightarrow> None
                | Some (Inl e, s3) \<Rightarrow> Some (Inl e, s3, p')
                | Some (Inr xs, s3) \<Rightarrow> Some (Inr (VList xs), s3, p'))))"
  unfolding get_objects_by_filter_def
  by (simp add: validate_params_report [OF assms] after_validation_spec [OF assms] Let_def
      stop_if_check_mode_def after_validation_frame get_user_params_def get_request_params_from_spec_def
      split: sum.splits prod.splits)

lemma send_request_eq:
  "send_request c req s =
     (if success (conn_send_request c (sent s) req)
      then (Inr (response (conn_send_request c (sent s) req)),
            s\<lparr>sent := sent s @ [req], config_changed := config_changed s \<or> http_method req \<noteq> GET\<rparr>)
      else (Inl (FtdServerError (response (conn_send_request c (sent s) req))
                   (status_code (conn_send_request c (sent s) req))),
            s\<lparr>sent := sent s @ [req]\<rparr>))"
  by (simp add: send_request_def Let_def)

lemmas demo_simps =
  demo_specs_def demo_error_def demo_server_def demo_equal_def demo_conn_def demo_object_def demo_params_def
  get_operation_spec_def init_resource_def validation_report_def failure_entry_def
  is_invalid_uuid_error_def is_duplicate_name_error_def UNPROCESSABLE_ENTITY_STATUS_def
  INVALID_UUID_ERROR_MESSAGE_def DUPLICATE_NAME_ERROR_MESSAGE_def NOT_EXIST_MESSAGE_def Let_def

text \<open>
  C6. A delete request that fails with status 422 and the invalid-UUID text yields the mapping
  \<open>{status: 'Referenced object does not exist'}\<close>; any other failure is raised
  as the server error it is; a successful request yields its response body.
\<close>

theorem delete_object_tolerance:
  assumes "fst (get_operation_spec c n s) = Some sp"
    and "validation_report c n p sp = []"
    and "\<not> check_mode s"
  shows "let r = conn_send_request c (sent s)
                   \<lparr>url_path = spec_url sp, http_method = spec_method sp, body_params = VNone,
                    path_params = get_or_empty (p_path_params p), query_params = VNone\<rparr>
         in fst (delete_object c n p s) =
              (if success r then Inr (response r)
               else if status_code r = 422 \<and>
                       str_contains (server_error_str c (response r) (status_code r))
                         ''Validation failed due to an invalid UUID''
               then Inr (VDict [(''status'', VStr ''Referenced object does not exist'')])
               else Inl (FtdServerError (response r) (status_code r)))"
  using assms(2,3)
  by (auto simp: delete_object_eq [OF assms(1)] send_request_eq after_validation_frame Let_def
      is_invalid_uuid_error_def UNPROCESSABLE_ENTITY_STATUS_def INVALID_UUID_ERROR_MESSAGE_def
      NOT_EXIST_MESSAGE_def)

theorem delete_object_tolerance_witness:
  "fst (get_operation_spec (demo_conn demo_specs (demo_server (demo_error ''no'') [])) ''deleteNetwork''
          (init_resource False)) = Some (the (map_of demo_specs ''deleteNetwork'')) \<and>
   validation_report (demo_conn demo_specs (demo_server (demo_error ''no'') [])) ''deleteNetwork''
     (demo_params Absent) (the (map_of demo_specs ''deleteNetwork'')) = [] \<and>
   \<not> check_mode (init_resource False) \<and>
   fst (delete_object (demo_conn demo_specs (demo_server (demo_error ''no'') [])) ''deleteNetwork''
          (demo_params Absent) (init_resource False)) =
     Inr (VDict [(''status'', VStr ''Referenced object does not exist'')])"
proof -
  let ?c = "demo_conn demo_specs (demo_server (demo_error ''no'') [])"
  let ?sp = "the (map_of demo_specs ''deleteNetwork'')"
  have h1: "fst (get_operation_spec ?c ''deleteNetwork'' (init_resource False)) = Some ?sp"
    by (simp add: demo_simps)
  have h2: "validation_report ?c ''deleteNetwork'' (demo_params Absent) ?sp = []"
    by (simp add: demo_simps)
  have h3: "\<not> check_mode (init_resource False)"
    by (simp add: demo_simps)
  show ?thesis
    using delete_object_tolerance [OF h1 h2 h3] h1 h2 h3
    by (simp add: demo_simps Let_def)
qed

lemma grows_refl [simp]: "grows s s"
  by (simp add: grows_def)

lemma grows_trans: "grows s s1 \<Longrightarrow> grows s1 s2 \<Longrightarrow> grows s s2"
  unfolding grows_def
  by (metis append_eq_conv_conj append_take_drop_id append.assoc)

lemma grows_sent: "grows s s' \<Longrightarrow> \<exists>more. sent s' = sent s @ more"
  unfolding grows_def by (metis append_take_drop_id)

lemma get_operation_spec_grows: "grows s (snd (get_operation_spec c n s))"
  by (simp add: grows_def get_operation_spec_frame)

lemma get_operation_specs_by_model_name_frame:
  "sent (snd (get_operation_specs_by_model_name c m s)) = sent s"
  "config_changed (snd (get_operation_specs_by_model_name c m s)) = config_changed s"
  "check_mode (snd (get_operation_specs_by_model_name c m s)) = check_mode s"
  by (simp_all add: get_operation_specs_by_model_name_def Let_def split: option.splits)

lemma get_operation_specs_by_model_name_grows: "grows s (snd (get_operation_specs_by_model_name c m s))"
  by (simp add: grows_def get_operation_specs_by_model_name_frame)

lemma validate_params_frame:
  "sent (snd (validate_params c n p s)) = sent s"
  "config_changed (snd (validate_params c n p s)) = config_changed s"
  "check_mode (snd (validate_params c n p s)) = check_mode s"
proof -
  obtain v s0 where g: "get_operation_spec c n s = (v, s0)"
    by (cases "get_operation_spec c n s")
  have f: "sent s0 = sent s" "config_changed s0 = config_changed s" "check_mode s0 = check_mode s"
    using get_operation_spec_frame [of c n s] g by simp_all
  show "sent (snd (validate_params c n p s)) = sent s"
    unfolding validate_params_def g
    by (simp add: f Let_def get_user_params_def validate_eq split: option.splits)
  show "config_changed (snd (validate_params c n p s)) = config_changed s"
    unfolding validate_params_def g
    by (simp add: f Let_def get_user_params_def validate_eq split: option.splits)
  show "check_mode (snd (validate_params c n p s)) = check_mode s"
    unfolding validate_params_def g
    by (simp add: f Let_def get_user_params_def validate_eq split: option.splits)
qed

lemma validate_params_grows: "grows s (snd (validate_params c n p s))"
  by (simp add: grows_def validate_params_frame)

lemma send_request_grows: "grows s (snd (send_request c req s))"
  by (simp add: grows_def send_request_eq)

lemma is_operation_state:
  "snd (is_add_operation c n s) = snd (get_operation_spec c n s)"
  "snd (is_edit_operation c n s) = snd (get_operation_spec c n s)"
  "snd (is_delete_operation c n s) = snd (get_operation_spec c n s)"
  "snd (is_find_all_operation c n s) = snd (get_operation_spec c n s)"
  "snd (is_find_by_filter_operation c n p s) = snd (get_operation_spec c n s)"
  by (simp_all add: is_add_operation_def is_edit_operation_def is_delete_operation_def
      is_find_all_operation_def is_find_by_filter_operation_def Let_def
      split: prod.splits option.splits sum.splits)

lemma gen_fetch_grows: "grows s (snd (gen_fetch (page_request c url m pp) qp s))"
proof -
  obtain a s1 where r: "page_request c url m pp qp s = (a, s1)"
    by (cases "page_request c url m pp qp s")
  then have "grows s s1"
    using send_request_grows [of s c] by (simp add: page_request_def) (metis snd_conv)
  with r show ?thesis
    by (cases a) (simp_all add: gen_fetch_def)
qed

lemma gen_next_grows: "grows s (snd (gen_next c (page_request c' url m pp) g s))"
  by (cases "(c, page_request c' url m pp, g, s)" rule: gen_next.cases)
     (auto simp: gen_fetch_grows split: sum.splits)

lemma find_first_grows:
  "find_first fuel c (page_request c' url m pp) keep g s = Some (r, s') \<Longrightarrow> grows s s'"
proof (induction fuel arbitrary: g s)
  case 0
  then show ?case by simp
next
  case (Suc fuel)
  obtain a s1 where n: "gen_next c (page_request c' url m pp) g s = (a, s1)"
    by (cases "gen_next c (page_request c' url m pp) g s")
  have g1: "grows s s1"
    using gen_next_grows [of s c c' url m pp g] n by simp
  show ?case
  proof (cases a)
    case (Inl e)
    with Suc.prems n g1 show ?thesis by simp
  next
    case (Inr y)
    show ?thesis
    proof (cases y)
      case None
      with Suc.prems n g1 Inr show ?thesis by simp
    next
      case (Some xg)
      obtain x g' where xg: "xg = (x, g')" by (cases xg)
      show ?thesis
      proof (cases "keep x")
        case (Inl e)
        with Suc.prems n g1 Inr Some xg show ?thesis by simp
      next
        case kr: (Inr b)
        show ?thesis
        proof (cases b)
          case True
          with Suc.prems n g1 Inr Some xg kr show ?thesis by simp
        next
          case False
          with Suc.prems n Inr Some xg kr
          have "find_first fuel c (page_request c' url m pp) keep g' s1 = Some (r, s')" by simp
          then have "grows s1 s'" by (rule Suc.IH)
          with g1 show ?thesis by (rule grows_trans)
        qed
      qed
    qed
  qed
qed

lemma collect_grows:
  "collect fuel c (page_request c' url m pp) keep g s = Some (r, s') \<Longrightarrow> grows s s'"
proof (induction fuel arbitrary: g s r)
  case 0
  then show ?case by simp
next
  case (Suc fuel)
  obtain a s1 where n: "gen_next c (page_request c' url m pp) g s = (a, s1)"
    by (cases "gen_next c (page_request c' url m pp) g s")
  have g1: "grows s s1"
    using gen_next_grows [of s c c' url m pp g] n by simp
  show ?case
  proof (cases a)
    case (Inl e)
    with Suc.prems n g1 show ?thesis by simp
  next
    case (Inr y)
    show ?thesis
    proof (cases y)
      case None
      with Suc.prems n g1 Inr show ?thesis by simp
    next
      case (Some xg)
      obtain x g' where xg: "xg = (x, g')" by (cases xg)
      show ?thesis
      proof (cases "keep x")
        case (Inl e)
        with Suc.prems n g1 Inr Some xg show ?thesis by simp
      next
        case kr: (Inr b)
        from Suc.prems n Inr Some xg kr
        obtain r1 where "collect fuel c (page_request c' url m pp) keep g' s1 = Some (r1, s')"
          by (auto split: option.splits prod.splits sum.splits)
        then have "grows s1 s'" by (rule Suc.IH)
        with g1 show ?thesis by (rule grows_trans)
      qed
    qed
  qed
qed

lemma validate_params_none:
  assumes "fst (get_operation_spec c n s) = None"
  shows "fst (validate_params c n p s) = Inl (PyError TypeError)"
proof -
  obtain s0 where g: "get_operation_spec c n s = (None, s0)"
    using assms by (cases "get_operation_spec c n s") simp
  show ?thesis
    unfolding validate_params_def g
    by (simp add: Let_def get_user_params_def split: prod.splits)
qed

lemma after_validation_grows: "grows s (after_validation c n p sp s)"
  by (simp add: grows_def after_validation_frame)

lemma send_after_validation_grows:
  "grows s (snd (send_request c req (after_validation c' n p sp s)))"
  using after_validation_grows send_request_grows by (rule grows_trans)

lemma get_objects_by_filter_grows:
  assumes "get_objects_by_filter fuel c n p one s = Some (r, s', p')"
  shows "grows s s'"
proof (cases "fst (get_operation_spec c n s)")
  case None
  have "s' = snd (validate_params c n p s)"
    using validate_params_none [OF None, of p] assms
    by (cases "validate_params c n p s") (simp add: get_objects_by_filter_def)
  then show ?thesis
    by (simp add: validate_params_grows)
next
  case (Some sp)
  let ?s1 = "after_validation c n p sp s"
  let ?rf = "page_request c (spec_url sp) (spec_method sp) (get_or_empty (p_path_params p))"
  let ?keep = "match_filters (filters_or_empty (p_filters p))"
  have "s' = ?s1 \<or> (\<exists>q x. find_first fuel c ?rf ?keep q ?s1 = Some (x, s'))
          \<or> (\<exists>q x. collect fuel c ?rf ?keep q ?s1 = Some (x, s'))"
    using assms
    by (auto simp: get_objects_by_filter_eq [OF Some]
        split: prod.splits sum.splits option.splits if_splits)
  then show ?thesis
    using after_validation_grows [of s c n p sp]
    by (auto dest!: find_first_grows collect_grows intro: grows_trans)
qed

lemma find_all_among_grows: "grows s (snd (find_all_among c ns s))"
proof (induction ns arbitrary: s)
  case Nil
  show ?case by simp
next
  case (Cons n ns)
  obtain a s1 where i: "is_find_all_operation c n s = (a, s1)"
    by (cases "is_find_all_operation c n s")
  have g1: "grows s s1"
    using is_operation_state(4) [of c n s] get_operation_spec_grows [of s c n] i by simp
  show ?case
  proof (cases a)
    case (Inl e)
    with i g1 show ?thesis by simp
  next
    case (Inr b)
    with i g1 Cons.IH [of s1] show ?thesis
      by (auto intro: grows_trans)
  qed
qed

lemma get_find_all_operation_name_grows: "grows s (snd (get_find_all_operation_name c m s))"
proof -
  obtain ops s1 where o: "get_operation_specs_by_model_name c m s = (ops, s1)"
    by (cases "get_operation_specs_by_model_name c m s")
  have g1: "grows s s1"
    using get_operation_specs_by_model_name_grows [of s c m] o by simp
  show ?thesis
    unfolding get_find_all_operation_name_def o
    using g1 find_all_among_grows [of s1 c "map fst ops"]
    by (auto intro: grows_trans)
qed

lemma check_if_the_same_object_grows:
  assumes "check_if_the_same_object fuel c sp p e s = Some (r, s', p')"
  shows "grows s s'"
proof -
  obtain a s1 where f: "get_find_all_operation_name c (spec_model_name sp) s = (a, s1)"
    by (cases "get_find_all_operation_name c (spec_model_name sp) s")
  have g1: "grows s s1"
    using get_find_all_operation_name_grows [of s c "spec_model_name sp"] f by simp
  show ?thesis
    using assms g1
    unfolding check_if_the_same_object_def f
    by (auto simp: Let_def split: sum.splits option.splits prod.splits if_splits arg.splits
        dest!: get_objects_by_filter_grows intro: grows_trans)
qed

lemma delete_object_grows: "grows s (snd (delete_object c n p s))"
proof (cases "fst (get_operation_spec c n s)")
  case None
  have "snd (delete_object c n p s) = snd (validate_params c n p s)"
    using validate_params_none [OF None, of p]
    by (cases "validate_params c n p s") (simp add: delete_object_def)
  then show ?thesis
    by (simp add: validate_params_grows)
next
  case (Some sp)
  let ?req = "\<lparr>url_path = spec_url sp, http_method = spec_method sp, body_params = VNone,
                path_params = get_or_empty (p_path_params p), query_params = VNone\<rparr>"
  have "snd (delete_object c n p s) = after_validation c n p sp s \<or>
        snd (delete_object c n p s) = snd (send_request c ?req (after_validation c n p sp s))"
    by (simp add: delete_object_eq [OF Some] split: prod.splits sum.splits error.splits)
  then show ?thesis
    using after_validation_grows [of s c n p sp] send_after_validation_grows [of s c ?req c n p sp]
    by auto
qed

lemma send_general_request_grows: "grows s (snd (send_general_request c n p s))"
proof (cases "fst (get_operation_spec c n s)")
  case None
  have "snd (send_general_request c n p s) = snd (validate_params c n p s)"
    using validate_params_none [OF None, of p]
    by (cases "validate_params c n p s") (simp add: send_general_request_def)
  then show ?thesis
    by (simp add: validate_params_grows)
next
  case (Some sp)
  show ?thesis
    by (simp add: send_general_request_eq [OF Some] after_validation_grows send_after_validation_grows)
qed

lemma edit_object_grows: "grows s (snd (edit_object c n p s))"
proof (cases "fst (get_operation_spec c n s)")
  case None
  have "snd (edit_object c n p s) = snd (validate_params c n p s)"
    using validate_params_none [OF None, of p]
    by (cases "validate_params c n p s") (simp add: edit_object_def)
  then show ?thesis
    by (simp add: validate_params_grows)
next
  case (Some sp)
  let ?get = "\<lparr>url_path = spec_url sp, http_method = GET, body_params = VNone,
                path_params = get_or_empty (p_path_params p), query_params = VNone\<rparr>"
  let ?put = "\<lparr>url_path = spec_url sp, http_method = spec_method sp,
                body_params = get_or_empty (p_data p), path_params = get_or_empty (p_path_params p),
                query_params = get_or_empty (p_query_params p)\<rparr>"
  let ?s1 = "after_validation c n p sp s"
  let ?s2 = "snd (send_request c ?get ?s1)"
  have "snd (edit_object c n p s) = ?s1 \<or> snd (edit_object c n p s) = ?s2 \<or>
        snd (edit_object c n p s) = snd (send_request c ?put ?s2)"
    by (simp add: edit_object_eq [OF Some] split: prod.splits sum.splits)
  moreover have "grows s ?s2"
    by (rule send_after_validation_grows)
  moreover have "grows s (snd (send_request c ?put ?s2))"
    using \<open>grows s ?s2\<close> send_request_grows by (rule grows_trans)
  ultimately show ?thesis
    using after_validation_grows [of s c n p sp] by auto
qed

lemma add_object_grows:
  assumes "add_object fuel c n p s = Some (r, s', p')"
  shows "grows s s'"
proof (cases "fst (get_operation_spec c n s)")
  case None
  have "s' = snd (validate_params c n p s)"
    using validate_params_none [OF None, of p] assms
    by (cases "validate_params c n p s") (simp add: add_object_def)
  then show ?thesis
    by (simp add: validate_params_grows)
next
  case (Some sp)
  let ?req = "\<lparr>url_path = spec_url sp, http_method = spec_method sp,
                body_params = get_or_empty (p_data p), path_params = get_or_empty (p_path_params p),
                query_params = get_or_empty (p_query_params p)\<rparr>"
  let ?s1 = "after_validation c n p sp s"
  let ?s3 = "snd (send_request c ?req ?s1)"
  have g3: "grows s ?s3"
    by (rule send_after_validation_grows)
  have "s' = ?s1 \<or> s' = ?s3 \<or> (\<exists>e. check_if_the_same_object fuel c sp p e ?s3 = Some (r, s', p'))"
    using assms
    by (auto simp: add_object_eq [OF Some] split: prod.splits sum.splits error.splits if_splits)
  then show ?thesis
    using after_validation_grows [of s c n p sp] g3
    by (auto dest!: check_if_the_same_object_grows intro: grows_trans)
qed

lemma get_operation_spec_again:
  assumes "fst (get_operation_spec c n s) = v"
  shows "get_operation_spec c n (snd (get_operation_spec c n s)) = (v, snd (get_operation_spec c n s))"
  using assms get_operation_spec_cached [of c n s]
  by (cases "get_operation_spec c n s") simp

lemma crud_operation_eq:
  assumes "fst (get_operation_spec c n s) = Some sp"
  shows "crud_operation fuel c n p s =
     (let s0 = snd (get_operation_spec c n s)
      in if startswith n ''add'' \<and> spec_method sp = POST then add_object fuel c n p s0
         else if startswith n ''edit'' \<and> spec_method sp = PUT then with_params p (edit_object c n p s0)
         else if startswith n ''delete'' \<and> spec_method sp = DELETE
           then with_params p (delete_object c n p s0)
         else if startswith n ''get'' \<and> endswith n ''List'' \<and> spec_method sp = GET \<and>
                 has_filters (p_filters p)
           then get_objects_by_filter fuel c n p False s0
         else with_params p (send_general_request c n p s0))"
proof -
  obtain s0 where g: "get_operation_spec c n s = (Some sp, s0)"
    using assms by (cases "get_operation_spec c n s") simp
  have g0: "get_operation_spec c n s0 = (Some sp, s0)"
    using get_operation_spec_again [OF assms] g by simp
  show ?thesis
    unfolding crud_operation_def g
    by (simp add: g0 Let_def is_add_operation_def is_edit_operation_def is_delete_operation_def
        is_find_by_filter_operation_def is_find_all_operation_def is_post_request_def is_put_request_def)
qed

lemma crud_operation_unknown:
  assumes "fst (get_operation_spec c n s) = None"
  shows "crud_operation fuel c n p s =
     Some (Inl (FtdInvalidOperationNameError n), snd (get_operation_spec c n s), p)"
  using assms
  by (cases "get_operation_spec c n s") (simp add: crud_operation_def)

lemma crud_operation_grows:
  assumes "crud_operation fuel c n p s = Some (r, s', p')"
  shows "grows s s'"
proof (cases "fst (get_operation_spec c n s)")
  case None
  with assms have "s' = snd (get_operation_spec c n s)"
    by (simp add: crud_operation_unknown)
  then show ?thesis
    by (simp add: get_operation_spec_grows)
next
  case (Some sp)
  let ?s0 = "snd (get_operation_spec c n s)"
  have g0: "grows s ?s0"
    by (rule get_operation_spec_grows)
  have "grows ?s0 s'"
    using assms edit_object_grows [of ?s0 c n p] delete_object_grows [of ?s0 c n p]
      send_general_request_grows [of ?s0 c n p]
    by (auto simp: crud_operation_eq [OF Some] Let_def with_params_def split: if_splits
        dest: add_object_grows get_objects_by_filter_grows)
  with g0 show ?thesis by (rule grows_trans)
qed

text \<open>
  C8. The flag is false at construction. \<open>_send_request\<close> raises the server error with the
  response body and the status code on a non-success envelope and leaves the flag as it was;
  on a success envelope it returns the response body, and the flag afterwards is true exactly
  when it was true before or the method is not GET. No operation of the instance resets it.
\<close>

theorem config_changed_monotone:
  "\<not> config_changed (init_resource cm) \<and>
   (\<not> success (conn_send_request c (sent s) req) \<longrightarrow>
      fst (send_request c req s) =
        Inl (FtdServerError (response (conn_send_request c (sent s) req))
               (status_code (conn_send_request c (sent s) req))) \<and>
      config_changed (snd (send_request c req s)) = config_changed s) \<and>
   (success (conn_send_request c (sent s) req) \<longrightarrow>
      fst (send_request c req s) = Inr (response (conn_send_request c (sent s) req)) \<and>
      config_changed (snd (send_request c req s)) = (config_changed s \<or> http_method req \<noteq> GET)) \<and>
   (config_changed s \<longrightarrow>
      config_changed (snd (get_operation_spec c n s)) \<and>
      config_changed (snd (get_operation_specs_by_model_name c n s)) \<and>
      config_changed (snd (validate_params c n p s)) \<and>
      config_changed (snd (edit_object c n p s)) \<and>
      config_changed (snd (delete_object c n p s)) \<and>
      config_changed (snd (send_general_request c n p s)) \<and>
      (\<forall>r s' p'. add_object fuel c n p s = Some (r, s', p') \<longrightarrow> config_changed s') \<and>
      (\<forall>r s' p'. get_objects_by_filter fuel c n p one s = Some (r, s', p') \<longrightarrow> config_changed s') \<and>
      (\<forall>r s' p'. crud_operation fuel c n p s = Some (r, s', p') \<longrightarrow> config_changed s'))"
proof -
  have a: "\<not> config_changed (init_resource cm)"
    by (simp add: init_resource_def)
  have b: "\<not> success (conn_send_request c (sent s) req) \<longrightarrow>
      fst (send_request c req s) =
        Inl (FtdServerError (response (conn_send_request c (sent s) req))
               (status_code (conn_send_request c (sent s) req))) \<and>
      config_changed (snd (send_request c req s)) = config_changed s"
    by (simp add: send_request_eq)
  have d: "success (conn_send_request c (sent s) req) \<longrightarrow>
      fst (send_request c req s) = Inr (response (conn_send_request c (sent s) req)) \<and>
      config_changed (snd (send_request c req s)) = (config_changed s \<or> http_method req \<noteq> GET)"
    by (simp add: send_request_eq)
  have m: "grows s s' \<Longrightarrow> config_changed s \<Longrightarrow> config_changed s'" for s'
    by (simp add: grows_def)
  have e: "config_changed s \<longrightarrow>
      config_changed (snd (get_operation_spec c n s)) \<and>
      config_changed (snd (get_operation_specs_by_model_name c n s)) \<and>
      config_changed (snd (validate_params c n p s)) \<and>
      config_changed (snd (edit_object c n p s)) \<and>
      config_changed (snd (delete_object c n p s)) \<and>
      config_changed (snd (send_general_request c n p s)) \<and>
      (\<forall>r s' p'. add_object fuel c n p s = Some (r, s', p') \<longrightarrow> config_changed s') \<and>
      (\<forall>r s' p'. get_objects_by_filter fuel c n p one s = Some (r, s', p') \<longrightarrow> config_changed s') \<and>
      (\<forall>r s' p'. crud_operation fuel c n p s = Some (r, s', p') \<longrightarrow> config_changed s')"
  proof
    assume cc: "config_changed s"
    have e1: "config_changed (snd (get_operation_spec c n s))"
      using cc by (simp add: get_operation_spec_frame)
    have e2: "config_changed (snd (get_operation_specs_by_model_name c n s))"
      using cc by (simp add: get_operation_specs_by_model_name_frame)
    have e3: "config_changed (snd (validate_params c n p s))"
      using cc by (simp add: validate_params_frame)
    have e4: "config_changed (snd (edit_object c n p s))"
      using m [OF edit_object_grows cc] .
    have e5: "config_changed (snd (delete_object c n p s))"
      using m [OF delete_object_grows cc] .
    have e6: "config_changed (snd (send_general_request c n p s))"
      using m [OF send_general_request_grows cc] .
    have e7: "\<forall>r s' p'. add_object fuel c n p s = Some (r, s', p') \<longrightarrow> config_changed s'"
      using m [OF add_object_grows cc] by blast
    have e8: "\<forall>r s' p'. get_objects_by_filter fuel c n p one s = Some (r, s', p') \<longrightarrow> config_changed s'"
      using m [OF get_objects_by_filter_grows cc] by blast
    have e9: "\<forall>r s' p'. crud_operation fuel c n p s = Some (r, s', p') \<longrightarrow> config_changed s'"
      using m [OF crud_operation_grows cc] by blast
    from e1 e2 e3 e4 e5 e6 e7 e8 e9
    show "config_changed (snd (get_operation_spec c n s)) \<and>
      config_changed (snd (get_operation_specs_by_model_name c n s)) \<and>
      config_changed (snd (validate_params c n p s)) \<and>
      config_changed (snd (edit_object c n p s)) \<and>
      config_changed (snd (delete_object c n p s)) \<and>
      config_changed (snd (send_general_request c n p s)) \<and>
      (\<forall>r s' p'. add_object fuel c n p s = Some (r, s', p') \<longrightarrow> config_changed s') \<and>
      (\<forall>r s' p'. get_objects_by_filter fuel c n p one s = Some (r, s', p') \<longrightarrow> config_changed s') \<and>
      (\<forall>r s' p'. crud_operation fuel c n p s = Some (r, s', p') \<longrightarrow> config_changed s')"
      by (intro conjI)
  qed
  from a b d e show ?thesis by blast
qed

theorem config_changed_monotone_witness:
  "\<not> success (conn_send_request (demo_conn demo_specs (demo_server (demo_error ''no'') [])) []
       \<lparr>url_path = ''/object/networks/1'', http_method = DELETE, body_params = VNone,
        path_params = VNone, query_params = VNone\<rparr>) \<and>
   \<not> config_changed (snd (send_request (demo_conn demo_specs (demo_server (demo_error ''no'') []))
       \<lparr>url_path = ''/object/networks/1'', http_method = DELETE, body_params = VNone,
        path_params = VNone, query_params = VNone\<rparr> (init_resource False))) \<and>
   success (conn_send_request (demo_conn demo_specs (demo_server (demo_error ''no'') [])) []
       \<lparr>url_path = ''/object/networks/1'', http_method = PUT, body_params = demo_object 1,
        path_params = VNone, query_params = VNone\<rparr>) \<and>
   config_changed (snd (send_request (demo_conn demo_specs (demo_server (demo_error ''no'') []))
       \<lparr>url_path = ''/object/networks/1'', http_method = PUT, body_params = demo_object 1,
        path_params = VNone, query_params = VNone\<rparr> (init_resource False))) \<and>
   config_changed (snd (send_general_request (demo_conn demo_specs (demo_server (demo_error ''no'') []))
       ''getNetwork'' (demo_params Absent)
       (snd (send_request (demo_conn demo_specs (demo_server (demo_error ''no'') []))
          \<lparr>url_path = ''/object/networks/1'', http_method = PUT, body_params = demo_object 1,
           path_params = VNone, query_params = VNone\<rparr> (init_resource False)))))"
proof -
  let ?c = "demo_conn demo_specs (demo_server (demo_error ''no'') [])"
  let ?del = "\<lparr>url_path = ''/object/networks/1'', http_method = DELETE, body_params = VNone,
        path_params = VNone, query_params = VNone\<rparr>"
  let ?put = "\<lparr>url_path = ''/object/networks/1'', http_method = PUT, body_params = demo_object 1,
        path_params = VNone, query_params = VNone\<rparr>"
  let ?s1 = "snd (send_request ?c ?put (init_resource False))"
  have f: "\<not> success (conn_send_request ?c [] ?del)"
    by (simp add: demo_simps)
  have t: "success (conn_send_request ?c [] ?put)"
    by (simp add: demo_simps)
  have s0: "sent (init_resource False) = []" "\<not> config_changed (init_resource False)"
    by (simp_all add: init_resource_def)
  have c1: "config_changed ?s1"
    using config_changed_monotone [where c = ?c and s = "init_resource False" and req = ?put] t s0
    by simp
  have c0: "\<not> config_changed (snd (send_request ?c ?del (init_resource False)))"
    using config_changed_monotone [where c = ?c and s = "init_resource False" and req = ?del] f s0
    by simp
  have c2: "config_changed (snd (send_general_request ?c ''getNetwork'' (demo_params Absent) ?s1))"
    using config_changed_monotone [where c = ?c and s = ?s1 and n = "''getNetwork''"
        and p = "demo_params Absent"] c1
    by simp
  from f t c0 c1 c2 show ?thesis by simp
qed

text \<open>
  C4. Validation calls the validators of \<open>query_params\<close> and \<open>path_params\<close>, and that of
  \<open>data\<close> when the method is POST or PUT, whatever the earlier ones answered; the report has
  one entry per failing category, a thrown failure under its category's label. With a report
  that is not empty every handler raises \<open>ValidationError\<close> with that report and sends no
  request, in check mode too.
\<close>

theorem validation_precedes_requests:
  assumes "fst (get_operation_spec c n s) = Some sp"
  shows "validate_params c n p s =
           (if validation_report c n p sp = [] then Inr ()
            else Inl (ValidationError (validation_report c n p sp)), after_validation c n p sp s) \<and>
         validated (after_validation c n p sp s) = validated s @ validator_calls p sp \<and>
         sent (after_validation c n p sp s) = sent s \<and>
         (validation_report c n p sp \<noteq> [] \<longrightarrow>
            add_object fuel c n p s =
              Some (Inl (ValidationError (validation_report c n p sp)), after_validation c n p sp s, p) \<and>
            edit_object c n p s =
              (Inl (ValidationError (validation_report c n p sp)), after_validation c n p sp s) \<and>
            delete_object c n p s =
              (Inl (ValidationError (validation_report c n p sp)), after_validation c n p sp s) \<and>
            send_general_request c n p s =
              (Inl (ValidationError (validation_report c n p sp)), after_validation c n p sp s) \<and>
            get_objects_by_filter fuel c n p one s =
              Some (Inl (ValidationError (validation_report c n p sp)), after_validation c n p sp s, p) \<and>
            crud_operation fuel c n p s =
              Some (Inl (ValidationError (validation_report c n p sp)),
                    after_validation c n p sp (snd (get_operation_spec c n s)), p))"
proof -
  let ?s0 = "snd (get_operation_spec c n s)"
  have s0: "fst (get_operation_spec c n ?s0) = Some sp"
    using get_operation_spec_again [OF assms] by simp
  have v: "validated (after_validation c n p sp s) = validated s @ validator_calls p sp"
    by (simp add: after_validation_def)
  have crud: "validation_report c n p sp \<noteq> [] \<Longrightarrow>
      crud_operation fuel c n p s =
        Some (Inl (ValidationError (validation_report c n p sp)), after_validation c n p sp ?s0, p)"
    by (simp add: crud_operation_eq [OF assms] Let_def with_params_def add_object_eq [OF s0]
        edit_object_eq [OF s0] delete_object_eq [OF s0] send_general_request_eq [OF s0]
        get_objects_by_filter_eq [OF s0])
  show ?thesis
    using crud v
    by (simp add: validate_params_report [OF assms] after_validation_frame add_object_eq [OF assms]
        edit_object_eq [OF assms] delete_object_eq [OF assms] send_general_request_eq [OF assms]
        get_objects_by_filter_eq [OF assms])
qed

theorem validation_precedes_requests_witness:
  "fst (get_operation_spec (demo_conn demo_specs (demo_server (demo_error ''no'') [])) ''addNetwork''
          (init_resource True)) = Some (the (map_of demo_specs ''addNetwork'')) \<and>
   validation_report (demo_conn demo_specs (demo_server (demo_error ''no'') [])) ''addNetwork''
       \<lparr>p_data = Given [(''a'', VInt 1)], p_query_params = Absent, p_path_params = Null, p_filters = Absent\<rparr>
       (the (map_of demo_specs ''addNetwork'')) =
     [(''Invalid path_params provided'', VStr ''path_params is None''),
      (''Invalid data provided'', VDict [(''required'', VList [VStr ''name''])])] \<and>
   map_option fst (crud_operation 0 (demo_conn demo_specs (demo_server (demo_error ''no'') [])) ''addNetwork''
       \<lparr>p_data = Given [(''a'', VInt 1)], p_query_params = Absent, p_path_params = Null, p_filters = Absent\<rparr>
       (init_resource True)) =
     Some (Inl (ValidationError
       [(''Invalid path_params provided'', VStr ''path_params is None''),
        (''Invalid data provided'', VDict [(''required'', VList [VStr ''name''])])])) \<and>
   map_option (sent \<circ> fst \<circ> snd) (crud_operation 0 (demo_conn demo_specs (demo_server (demo_error ''no'') []))
       ''addNetwork''
       \<lparr>p_data = Given [(''a'', VInt 1)], p_query_params = Absent, p_path_params = Null, p_filters = Absent\<rparr>
       (init_resource True)) = Some [] \<and>
   map_option (validated \<circ> fst \<circ> snd) (crud_operation 0 (demo_conn demo_specs (demo_server (demo_error ''no'') []))
       ''addNetwork''
       \<lparr>p_data = Given [(''a'', VInt 1)], p_query_params = Absent, p_path_params = Null, p_filters = Absent\<rparr>
       (init_resource True)) =
     Some [(''query_params'', VDict []), (''path_params'', VNone), (''data'', VDict [(''a'', VInt 1)])]"
proof -
  let ?c = "demo_conn demo_specs (demo_server (demo_error ''no'') [])"
  let ?sp = "the (map_of demo_specs ''addNetwork'')"
  let ?p = "\<lparr>p_data = Given [(''a'', VInt 1)], p_query_params = Absent, p_path_params = Null,
             p_filters = Absent\<rparr>"
  have h1: "fst (get_operation_spec ?c ''addNetwork'' (init_resource True)) = Some ?sp"
    by (simp add: demo_simps)
  have h2: "validation_report ?c ''addNetwork'' ?p ?sp =
     [(''Invalid path_params provided'', VStr ''path_params is None''),
      (''Invalid data provided'', VDict [(''required'', VList [VStr ''name''])])]"
    by (simp add: demo_simps)
  have h3: "validated (after_validation ?c ''addNetwork'' ?p ?sp
              (snd (get_operation_spec ?c ''addNetwork'' (init_resource True)))) =
     [(''query_params'', VDict []), (''path_params'', VNone), (''data'', VDict [(''a'', VInt 1)])]"
    by (simp add: after_validation_def validator_calls_def get_operation_spec_frame) (simp add: demo_simps)
  have h4: "sent (after_validation ?c ''addNetwork'' ?p ?sp
              (snd (get_operation_spec ?c ''addNetwork'' (init_resource True)))) = []"
    by (simp add: after_validation_frame get_operation_spec_frame init_resource_def)
  show ?thesis
    using validation_precedes_requests [OF h1, of ?p 0] h1 h2 h3 h4
    by simp
qed

text \<open>
  C1, as the code has it. In check mode and with valid parameters every handler stops with
  \<open>CheckModeException\<close> after validation and before any request: Add, Edit, Delete, the
  general request whatever its method (GET too), and \<open>get_objects_by_filter\<close>.
\<close>

theorem check_mode_gates_every_handler:
  assumes "fst (get_operation_spec c n s) = Some sp"
    and "validation_report c n p sp = []"
    and "check_mode s"
  shows "add_object fuel c n p s = Some (Inl CheckModeException, after_validation c n p sp s, p) \<and>
         edit_object c n p s = (Inl CheckModeException, after_validation c n p sp s) \<and>
         delete_object c n p s = (Inl CheckModeException, after_validation c n p sp s) \<and>
         send_general_request c n p s = (Inl CheckModeException, after_validation c n p sp s) \<and>
         get_objects_by_filter fuel c n p one s =
           Some (Inl CheckModeException, after_validation c n p sp s, p) \<and>
         crud_operation fuel c n p s =
           Some (Inl CheckModeException, after_validation c n p sp (snd (get_operation_spec c n s)), p) \<and>
         sent (after_validation c n p sp s) = sent s \<and>
         sent (after_validation c n p sp (snd (get_operation_spec c n s))) = sent s"
proof -
  let ?s0 = "snd (get_operation_spec c n s)"
  have s0: "fst (get_operation_spec c n ?s0) = Some sp"
    using get_operation_spec_again [OF assms(1)] by simp
  have cm0: "check_mode ?s0"
    using assms(3) by (simp add: get_operation_spec_frame)
  have crud: "crud_operation fuel c n p s =
        Some (Inl CheckModeException, after_validation c n p sp ?s0, p)"
    using assms(2) cm0
    by (simp add: crud_operation_eq [OF assms(1)] Let_def with_params_def add_object_eq [OF s0]
        edit_object_eq [OF s0] delete_object_eq [OF s0] send_general_request_eq [OF s0]
        get_objects_by_filter_eq [OF s0])
  show ?thesis
    using crud assms(2,3)
    by (simp add: after_validation_frame get_operation_spec_frame add_object_eq [OF assms(1)]
        edit_object_eq [OF assms(1)] delete_object_eq [OF assms(1)]
        send_general_request_eq [OF assms(1)] get_objects_by_filter_eq [OF assms(1)])
qed

theorem check_mode_gates_every_handler_witness:
  "fst (get_operation_spec (demo_conn demo_specs (demo_server (demo_error ''no'') [])) ''getNetwork''
          (init_resource True)) = Some (the (map_of demo_specs ''getNetwork'')) \<and>
   validation_report (demo_conn demo_specs (demo_server (demo_error ''no'') [])) ''getNetwork''
       (demo_params Absent) (the (map_of demo_specs ''getNetwork'')) = [] \<and>
   check_mode (init_resource True) \<and>
   map_option fst (crud_operation 0 (demo_conn demo_specs (demo_server (demo_error ''no'') []))
       ''getNetwork'' (demo_params Absent) (init_resource True)) = Some (Inl CheckModeException) \<and>
   map_option (sent \<circ> fst \<circ> snd) (crud_operation 0 (demo_conn demo_specs (demo_server (demo_error ''no'') []))
       ''getNetwork'' (demo_params Absent) (init_resource True)) = Some []"
proof -
  let ?c = "demo_conn demo_specs (demo_server (demo_error ''no'') [])"
  let ?sp = "the (map_of demo_specs ''getNetwork'')"
  have h1: "fst (get_operation_spec ?c ''getNetwork'' (init_resource True)) = Some ?sp"
    by (simp add: demo_simps)
  have h2: "validation_report ?c ''getNetwork'' (demo_params Absent) ?sp = []"
    by (simp add: demo_simps)
  have h3: "check_mode (init_resource True)"
    by (simp add: init_resource_def)
  have h4: "sent (init_resource True) = []"
    by (simp add: init_resource_def)
  show ?thesis
    using check_mode_gates_every_handler [OF h1 h2 h3, of 0] h1 h2 h3 h4
    by simp
qed

text \<open>
  The claim C1 as written fails: in check mode a FindByFilter call and a read-only (GET)
  general request with valid parameters are gated as well, and send nothing.
\<close>

theorem read_operations_gated_counterexample:
  "map_option fst (get_objects_by_filter (Suc 0) (demo_conn demo_specs (demo_server (demo_error ''no'') []))
       ''getNetworkList''
       \<lparr>p_data = Absent, p_query_params = Absent, p_path_params = Absent,
        p_filters = Given [(''name'', VStr ''x'')]\<rparr> False (init_resource True)) =
     Some (Inl CheckModeException) \<and>
   map_option (sent \<circ> fst \<circ> snd)
     (get_objects_by_filter (Suc 0) (demo_conn demo_specs (demo_server (demo_error ''no'') []))
       ''getNetworkList''
       \<lparr>p_data = Absent, p_query_params = Absent, p_path_params = Absent,
        p_filters = Given [(''name'', VStr ''x'')]\<rparr> False (init_resource True)) = Some [] \<and>
   fst (send_general_request (demo_conn demo_specs (demo_server (demo_error ''no'') []))
       ''getNetwork'' (demo_params Absent) (init_resource True)) = Inl CheckModeException \<and>
   sent (snd (send_general_request (demo_conn demo_specs (demo_server (demo_error ''no'') []))
       ''getNetwork'' (demo_params Absent) (init_resource True))) = []"
proof -
  let ?c = "demo_conn demo_specs (demo_server (demo_error ''no'') [])"
  let ?p = "\<lparr>p_data = Absent, p_query_params = Absent, p_path_params = Absent,
             p_filters = Given [(''name'', VStr ''x'')]\<rparr>"
  have l: "fst (get_operation_spec ?c ''getNetworkList'' (init_resource True)) =
             Some (the (map_of demo_specs ''getNetworkList''))"
    by (simp add: demo_simps)
  have g: "fst (get_operation_spec ?c ''getNetwork'' (init_resource True)) =
             Some (the (map_of demo_specs ''getNetwork''))"
    by (simp add: demo_simps)
  have rl: "validation_report ?c ''getNetworkList'' ?p (the (map_of demo_specs ''getNetworkList'')) = []"
    by (simp add: demo_simps)
  have rg: "validation_report ?c ''getNetwork'' (demo_params Absent) (the (map_of demo_specs ''getNetwork'')) = []"
    by (simp add: demo_simps)
  have cm: "check_mode (init_resource True)" "sent (init_resource True) = []"
    by (simp_all add: init_resource_def)
  show ?thesis
    by (simp add: get_objects_by_filter_eq [OF l] send_general_request_eq [OF g] rl rg cm
        after_validation_frame)
qed

text \<open>
  C5. After validation and the check-mode gate \<open>edit_object\<close> first sends a GET to the same
  URL with the same path parameters. A failed fetch raises its server error. An empty
  result raises \<open>FtdConfigurationError('Referenced object does not exist')\<close>. A fetched
  object equal to the submitted data is returned and nothing more is sent. Otherwise the
  write request is sent and its outcome is the outcome of the call.
\<close>

theorem edit_object_fetches_first:
  assumes "fst (get_operation_spec c n s) = Some sp"
    and "validation_report c n p sp = []"
    and "\<not> check_mode s"
  shows "let fetch = \<lparr>url_path = spec_url sp, http_method = GET, body_params = VNone,
                      path_params = get_or_empty (p_path_params p), query_params = VNone\<rparr>;
             write = \<lparr>url_path = spec_url sp, http_method = spec_method sp,
                      body_params = get_or_empty (p_data p),
                      path_params = get_or_empty (p_path_params p),
                      query_params = get_or_empty (p_query_params p)\<rparr>;
             r = conn_send_request c (sent s) fetch;
             w = conn_send_request c (sent s @ [fetch]) write;
             res = fst (edit_object c n p s);
             log = sent (snd (edit_object c n p s))
         in (\<not> success r \<longrightarrow>
               res = Inl (FtdServerError (response r) (status_code r)) \<and> log = sent s @ [fetch]) \<and>
            (success r \<and> \<not> truthy (response r) \<longrightarrow>
               res = Inl (FtdConfigurationError ''Referenced object does not exist'' None) \<and>
               log = sent s @ [fetch]) \<and>
            (success r \<and> truthy (response r) \<and> equal_objects c (response r) (get_or_empty (p_data p)) \<longrightarrow>
               res = Inr (response r) \<and> log = sent s @ [fetch]) \<and>
            (success r \<and> truthy (response r) \<and> \<not> equal_objects c (response r) (get_or_empty (p_data p)) \<longrightarrow>
               log = sent s @ [fetch, write] \<and>
               res = (if success w then Inr (response w)
                      else Inl (FtdServerError (response w) (status_code w))))"
  using assms(2,3)
  by (simp add: edit_object_eq [OF assms(1)] send_request_eq after_validation_frame Let_def
      NOT_EXIST_MESSAGE_def)

theorem edit_object_fetches_first_witness:
  "fst (get_operation_spec (demo_conn demo_specs (demo_server (demo_error ''no'') [demo_object 1]))
          ''editNetwork'' (init_resource False)) = Some (the (map_of demo_specs ''editNetwork'')) \<and>
   validation_report (demo_conn demo_specs (demo_server (demo_error ''no'') [demo_object 1]))
     ''editNetwork'' (demo_params (Given [(''name'', VStr ''x''), (''a'', VInt 1)]))
     (the (map_of demo_specs ''editNetwork'')) = [] \<and>
   \<not> check_mode (init_resource False) \<and>
   fst (edit_object (demo_conn demo_specs (demo_server (demo_error ''no'') [])) ''editNetwork''
          (demo_params (Given [(''name'', VStr ''x''), (''a'', VInt 1)])) (init_resource False)) =
     Inl (FtdConfigurationError ''Referenced object does not exist'' None) \<and>
   sent (snd (edit_object (demo_conn demo_specs (demo_server (demo_error ''no'') [])) ''editNetwork''
          (demo_params (Given [(''name'', VStr ''x''), (''a'', VInt 1)])) (init_resource False))) =
     [\<lparr>url_path = ''/object/networks/{objId}'', http_method = GET, body_params = VNone,
       path_params = VDict [(''objId'', VStr ''1'')], query_params = VNone\<rparr>] \<and>
   fst (edit_object (demo_conn demo_specs (demo_server (demo_error ''no'') [demo_object 1])) ''editNetwork''
          (demo_params (Given [(''name'', VStr ''x''), (''a'', VInt 1)])) (init_resource False)) =
     Inr (demo_object 1) \<and>
   sent (snd (edit_object (demo_conn demo_specs (demo_server (demo_error ''no'') [demo_object 1]))
          ''editNetwork''
          (demo_params (Given [(''name'', VStr ''x''), (''a'', VInt 1)])) (init_resource False))) =
     [\<lparr>url_path = ''/object/networks/{objId}'', http_method = GET, body_params = VNone,
       path_params = VDict [(''objId'', VStr ''1'')], query_params = VNone\<rparr>] \<and>
   fst (edit_object (demo_conn demo_specs (demo_server (demo_error ''no'') [demo_object 1])) ''editNetwork''
          (demo_params (Given [(''name'', VStr ''x''), (''a'', VInt 2)])) (init_resource False)) =
     Inr (demo_object 2) \<and>
   sent (snd (edit_object (demo_conn demo_specs (demo_server (demo_error ''no'') [demo_object 1]))
          ''editNetwork''
          (demo_params (Given [(''name'', VStr ''x''), (''a'', VInt 2)])) (init_resource False))) =
     [\<lparr>url_path = ''/object/networks/{objId}'', http_method = GET, body_params = VNone,
       path_params = VDict [(''objId'', VStr ''1'')], query_params = VNone\<rparr>,
      \<lparr>url_path = ''/object/networks/{objId}'', http_method = PUT, body_params = demo_object 2,
       path_params = VDict [(''objId'', VStr ''1'')], query_params = VDict []\<rparr>]"
proof -
  let ?sp = "the (map_of demo_specs ''editNetwork'')"
  let ?c0 = "demo_conn demo_specs (demo_server (demo_error ''no'') [])"
  let ?c1 = "demo_conn demo_specs (demo_server (demo_error ''no'') [demo_object 1])"
  let ?p1 = "demo_params (Given [(''name'', VStr ''x''), (''a'', VInt 1)])"
  let ?p2 = "demo_params (Given [(''name'', VStr ''x''), (''a'', VInt 2)])"
  have h1: "fst (get_operation_spec (demo_conn demo_specs srv) ''editNetwork'' (init_resource False)) = Some ?sp"
    for srv
    by (simp add: demo_simps)
  have h2: "validation_report (demo_conn demo_specs srv) ''editNetwork''
              (demo_params (Given [(''name'', VStr ''x''), (''a'', VInt a)])) ?sp = []" for srv a
    by (simp add: demo_simps)
  have h3: "\<not> check_mode (init_resource False)"
    by (simp add: init_resource_def)
  have s0: "sent (init_resource False) = []"
    by (simp add: init_resource_def)
  have a: "fst (edit_object ?c0 ''editNetwork'' ?p1 (init_resource False)) =
             Inl (FtdConfigurationError ''Referenced object does not exist'' None) \<and>
           sent (snd (edit_object ?c0 ''editNetwork'' ?p1 (init_resource False))) =
             [\<lparr>url_path = ''/object/networks/{objId}'', http_method = GET, body_params = VNone,
               path_params = VDict [(''objId'', VStr ''1'')], query_params = VNone\<rparr>]"
    using edit_object_fetches_first [OF h1 [of "demo_server (demo_error ''no'') []"]
        h2 [of "demo_server (demo_error ''no'') []" 1] h3]
    by (simp add: s0 Let_def demo_specs_def demo_params_def demo_conn_def demo_server_def)
  have b: "fst (edit_object ?c1 ''editNetwork'' ?p1 (init_resource False)) = Inr (demo_object 1) \<and>
           sent (snd (edit_object ?c1 ''editNetwork'' ?p1 (init_resource False))) =
             [\<lparr>url_path = ''/object/networks/{objId}'', http_method = GET, body_params = VNone,
               path_params = VDict [(''objId'', VStr ''1'')], query_params = VNone\<rparr>]"
    using edit_object_fetches_first [OF h1 [of "demo_server (demo_error ''no'') [demo_object 1]"]
        h2 [of "demo_server (demo_error ''no'') [demo_object 1]" 1] h3]
    by (simp add: s0 Let_def demo_specs_def demo_params_def demo_conn_def demo_server_def
        demo_object_def demo_equal_def)
  have d: "fst (edit_object ?c1 ''editNetwork'' ?p2 (init_resource False)) = Inr (demo_object 2) \<and>
           sent (snd (edit_object ?c1 ''editNetwork'' ?p2 (init_resource False))) =
             [\<lparr>url_path = ''/object/networks/{objId}'', http_method = GET, body_params = VNone,
               path_params = VDict [(''objId'', VStr ''1'')], query_params = VNone\<rparr>,
              \<lparr>url_path = ''/object/networks/{objId}'', http_method = PUT, body_params = demo_object 2,
               path_params = VDict [(''objId'', VStr ''1'')], query_params = VDict []\<rparr>]"
    using edit_object_fetches_first [OF h1 [of "demo_server (demo_error ''no'') [demo_object 1]"]
        h2 [of "demo_server (demo_error ''no'') [demo_object 1]" 2] h3]
    by (simp add: s0 Let_def demo_specs_def demo_params_def demo_conn_def demo_server_def
        demo_object_def demo_equal_def)
  from h1 [of "demo_server (demo_error ''no'') [demo_object 1]"]
    h2 [of "demo_server (demo_error ''no'') [demo_object 1]" 1] h3 a b d
  show ?thesis by simp
qed

text \<open>
  C10. The request \<open>delete_object\<close> sends carries the URL, the method and the path
  parameters only: body and query parameters are \<open>None\<close>, whatever \<open>data\<close> and
  \<open>query_params\<close> the caller supplied. The general request and the create request of
  \<open>add_object\<close> carry both, and so does the write request of \<open>edit_object\<close> when it is sent.
\<close>

theorem delete_object_drops_data_and_query:
  assumes "fst (get_operation_spec c n s) = Some sp"
    and "validation_report c n p sp = []"
    and "\<not> check_mode s"
  shows "let full = \<lparr>url_path = spec_url sp, http_method = spec_method sp,
                     body_params = get_or_empty (p_data p),
                     path_params = get_or_empty (p_path_params p),
                     query_params = get_or_empty (p_query_params p)\<rparr>;
             fetch = \<lparr>url_path = spec_url sp, http_method = GET, body_params = VNone,
                      path_params = get_or_empty (p_path_params p), query_params = VNone\<rparr>
         in sent (snd (delete_object c n p s)) =
              sent s @ [\<lparr>url_path = spec_url sp, http_method = spec_method sp, body_params = VNone,
                         path_params = get_or_empty (p_path_params p), query_params = VNone\<rparr>] \<and>
            sent (snd (send_general_request c n p s)) = sent s @ [full] \<and>
            (\<forall>r s' p'. add_object fuel c n p s = Some (r, s', p') \<longrightarrow>
               take (Suc (length (sent s))) (sent s') = sent s @ [full]) \<and>
            (sent (snd (edit_object c n p s)) = sent s @ [fetch] \<or>
             sent (snd (edit_object c n p s)) = sent s @ [fetch, full])"
proof -
  let ?full = "\<lparr>url_path = spec_url sp, http_method = spec_method sp,
                 body_params = get_or_empty (p_data p),
                 path_params = get_or_empty (p_path_params p),
                 query_params = get_or_empty (p_query_params p)\<rparr>"
  let ?s1 = "after_validation c n p sp s"
  let ?s3 = "snd (send_request c ?full ?s1)"
  have d: "sent (snd (delete_object c n p s)) =
              sent s @ [\<lparr>url_path = spec_url sp, http_method = spec_method sp, body_params = VNone,
                         path_params = get_or_empty (p_path_params p), query_params = VNone\<rparr>]"
    using assms(2,3)
    by (simp add: delete_object_eq [OF assms(1)] send_request_eq after_validation_frame)
  have g: "sent (snd (send_general_request c n p s)) = sent s @ [?full]"
    using assms(2,3)
    by (simp add: send_general_request_eq [OF assms(1)] send_request_eq after_validation_frame)
  have e: "sent (snd (edit_object c n p s)) =
             sent s @ [\<lparr>url_path = spec_url sp, http_method = GET, body_params = VNone,
                        path_params = get_or_empty (p_path_params p), query_params = VNone\<rparr>] \<or>
           sent (snd (edit_object c n p s)) =
             sent s @ [\<lparr>url_path = spec_url sp, http_method = GET, body_params = VNone,
                        path_params = get_or_empty (p_path_params p), query_params = VNone\<rparr>, ?full]"
    using assms(2,3)
    by (simp add: edit_object_eq [OF assms(1)] send_request_eq after_validation_frame)
  have s3: "sent ?s3 = sent s @ [?full]"
    by (simp add: send_request_eq after_validation_frame)
  have a: "take (Suc (length (sent s))) (sent s') = sent s @ [?full]"
    if "add_object fuel c n p s = Some (r, s', p')" for r s' p'
  proof -
    have "s' = ?s3 \<or> (\<exists>e. check_if_the_same_object fuel c sp p e ?s3 = Some (r, s', p'))"
      using that assms(2,3)
      by (auto simp: add_object_eq [OF assms(1)] split: prod.splits sum.splits error.splits if_splits)
    then have "grows ?s3 s'"
      by (auto dest!: check_if_the_same_object_grows)
    then have "take (length (sent ?s3)) (sent s') = sent ?s3"
      by (simp add: grows_def)
    then show ?thesis
      by (simp add: s3)
  qed
  from d g e a show ?thesis
    by (simp add: Let_def)
qed

theorem delete_object_drops_data_and_query_witness:
  "fst (get_operation_spec (demo_conn demo_specs (demo_server (demo_error ''no'') [])) ''deleteNetwork''
          (init_resource False)) = Some (the (map_of demo_specs ''deleteNetwork'')) \<and>
   validation_report (demo_conn demo_specs (demo_server (demo_error ''no'') [])) ''deleteNetwork''
     \<lparr>p_data = Given [(''name'', VStr ''x'')], p_query_params = Given [(''force'', VBool True)],
      p_path_params = Given [(''objId'', VStr ''1'')], p_filters = Absent\<rparr>
     (the (map_of demo_specs ''deleteNetwork'')) = [] \<and>
   \<not> check_mode (init_resource False) \<and>
   sent (snd (delete_object (demo_conn demo_specs (demo_server (demo_error ''no'') [])) ''deleteNetwork''
     \<lparr>p_data = Given [(''name'', VStr ''x'')], p_query_params = Given [(''force'', VBool True)],
      p_path_params = Given [(''objId'', VStr ''1'')], p_filters = Absent\<rparr> (init_resource False))) =
     [\<lparr>url_path = ''/object/networks/{objId}'', http_method = DELETE, body_params = VNone,
       path_params = VDict [(''objId'', VStr ''1'')], query_params = VNone\<rparr>] \<and>
   sent (snd (send_general_request (demo_conn demo_specs (demo_server (demo_error ''no'') []))
     ''deleteNetwork''
     \<lparr>p_data = Given [(''name'', VStr ''x'')], p_query_params = Given [(''force'', VBool True)],
      p_path_params = Given [(''objId'', VStr ''1'')], p_filters = Absent\<rparr> (init_resource False))) =
     [\<lparr>url_path = ''/object/networks/{objId}'', http_method = DELETE,
       body_params = VDict [(''name'', VStr ''x'')],
       path_params = VDict [(''objId'', VStr ''1'')], query_params = VDict [(''force'', VBool True)]\<rparr>]"
proof -
  let ?c = "demo_conn demo_specs (demo_server (demo_error ''no'') [])"
  let ?sp = "the (map_of demo_specs ''deleteNetwork'')"
  let ?p = "\<lparr>p_data = Given [(''name'', VStr ''x'')], p_query_params = Given [(''force'', VBool True)],
      p_path_params = Given [(''objId'', VStr ''1'')], p_filters = Absent\<rparr>"
  have h1: "fst (get_operation_spec ?c ''deleteNetwork'' (init_resource False)) = Some ?sp"
    by (simp add: demo_simps)
  have h2: "validation_report ?c ''deleteNetwork'' ?p ?sp = []"
    by (simp add: demo_simps)
  have h3: "\<not> check_mode (init_resource False)"
    by (simp add: init_resource_def)
  have s0: "sent (init_resource False) = []"
    by (simp add: init_resource_def)
  show ?thesis
    using delete_object_drops_data_and_query [OF h1 h2 h3, of 0] h1 h2 h3
    by (simp add: s0 Let_def demo_specs_def)
qed

lemma backfill:
  "foldl cache_setdefault cache specs n =
     (case cache n of Some v \<Rightarrow> Some v | None \<Rightarrow> map_option Some (map_of specs n))"
proof (induction specs arbitrary: cache)
  case Nil
  show ?case by (simp split: option.splits)
next
  case (Cons kv specs)
  have "foldl cache_setdefault cache (kv # specs) n =
          (case cache_setdefault cache kv n of
             Some v \<Rightarrow> Some v
           | None \<Rightarrow> map_option Some (map_of specs n))"
    by (simp add: Cons.IH)
  also have "\<dots> = (case cache n of Some v \<Rightarrow> Some v | None \<Rightarrow> map_option Some (map_of (kv # specs) n))"
    by (cases kv) (auto simp: cache_setdefault_def split: option.splits)
  finally show ?case .
qed

lemma get_operation_spec_caches:
  "models_operations_specs_cache (snd (get_operation_spec c n s)) = models_operations_specs_cache s"
  "operation_spec_cache (snd (get_operation_spec c n s)) =
     (case operation_spec_cache s n of
        None \<Rightarrow> (operation_spec_cache s)(n \<mapsto> conn_get_operation_spec c n)
      | Some v \<Rightarrow> operation_spec_cache s)"
  by (simp_all add: get_operation_spec_def Let_def split: option.splits)

lemma get_operation_specs_by_model_name_caches:
  "models_operations_specs_cache (snd (get_operation_specs_by_model_name c m s)) =
     (case models_operations_specs_cache s m of
        None \<Rightarrow> (models_operations_specs_cache s)(m \<mapsto> conn_get_operation_specs_by_model_name c m)
      | Some specs \<Rightarrow> models_operations_specs_cache s)"
  "operation_spec_cache (snd (get_operation_specs_by_model_name c m s)) n =
     (case models_operations_specs_cache s m of
        None \<Rightarrow>
          (case operation_spec_cache s n of
             Some v \<Rightarrow> Some v
           | None \<Rightarrow> map_option Some (map_of (conn_get_operation_specs_by_model_name c m) n))
      | Some specs \<Rightarrow> operation_spec_cache s n)"
  by (simp_all add: get_operation_specs_by_model_name_def Let_def backfill split: option.splits)

lemma map_of_key: "kv \<in> set specs \<Longrightarrow> map_of specs (fst kv) \<noteq> None"
  by (metis map_of_eq_None_iff image_eqI)

lemma cache_inv_step: "cache_inv s \<Longrightarrow> cache_inv (run_call c s call)"
proof (cases call)
  case (GetSpec n)
  assume "cache_inv s"
  then show ?thesis
    unfolding cache_inv_def GetSpec
    by (auto simp: get_operation_spec_caches split: option.splits)
next
  case (GetSpecsByModel m)
  assume i: "cache_inv s"
  show ?thesis
    unfolding cache_inv_def GetSpecsByModel run_call.simps
  proof (intro allI impI ballI)
    fix m' specs kv
    assume c: "models_operations_specs_cache (snd (get_operation_specs_by_model_name c m s)) m' = Some specs"
      and k: "kv \<in> set specs"
    show "operation_spec_cache (snd (get_operation_specs_by_model_name c m s)) (fst kv) \<noteq> None"
    proof (cases "models_operations_specs_cache s m")
      case (Some old)
      with c k i show ?thesis
        by (auto simp: get_operation_specs_by_model_name_caches cache_inv_def)
    next
      case None
      show ?thesis
      proof (cases "m' = m")
        case True
        with c None have "specs = conn_get_operation_specs_by_model_name c m"
          by (simp add: get_operation_specs_by_model_name_caches)
        with k map_of_key [of kv specs] None show ?thesis
          by (auto simp: get_operation_specs_by_model_name_caches split: option.splits)
      next
        case False
        with c None have "models_operations_specs_cache s m' = Some specs"
          by (simp add: get_operation_specs_by_model_name_caches)
        with i k have "operation_spec_cache s (fst kv) \<noteq> None"
          by (auto simp: cache_inv_def)
        with None show ?thesis
          by (auto simp: get_operation_specs_by_model_name_caches split: option.splits)
      qed
    qed
  qed
qed

lemma cache_inv_run: "cache_inv s \<Longrightarrow> cache_inv (run_calls c calls s)"
  unfolding run_calls_def
  by (induction calls arbitrary: s) (simp_all add: cache_inv_step)

lemma cache_from_source_step:
  assumes "consistent_source c" and "cache_from_source c s"
  shows "cache_from_source c (run_call c s call)"
proof (cases call)
  case (GetSpec n)
  with assms(2) show ?thesis
    unfolding cache_from_source_def
    by (auto simp: get_operation_spec_caches split: option.splits if_splits)
next
  case (GetSpecsByModel m)
  with assms show ?thesis
    unfolding cache_from_source_def consistent_source_def
    by (auto simp: get_operation_specs_by_model_name_caches split: option.splits if_splits)
qed

lemma cache_from_source_run:
  "consistent_source c \<Longrightarrow> cache_from_source c s \<Longrightarrow> cache_from_source c (run_calls c calls s)"
  unfolding run_calls_def
  by (induction calls arbitrary: s) (simp_all add: cache_from_source_step)

lemma cache_same_spec_from:
  assumes "consistent_source c" and "cache_from_source c s" and "cache_inv s"
  shows "cache_same_spec s"
  unfolding cache_same_spec_def
proof (intro allI impI)
  fix m specs n sp
  assume m: "models_operations_specs_cache s m = Some specs" and n: "map_of specs n = Some sp"
  from n have "(n, sp) \<in> set specs"
    by (rule map_of_SomeD)
  with assms(3) m obtain v where v: "operation_spec_cache s n = Some v"
    unfolding cache_inv_def by fastforce
  from assms(2) m have "specs = conn_get_operation_specs_by_model_name c m"
    unfolding cache_from_source_def by blast
  with assms(1) n have "conn_get_operation_spec c n = Some sp"
    unfolding consistent_source_def by blast
  moreover from assms(2) v have "v = conn_get_operation_spec c n"
    unfolding cache_from_source_def by blast
  ultimately show "operation_spec_cache s n = Some (Some sp)"
    using v by simp
qed

lemma init_invariants: "cache_inv (init_resource cm)" "cache_from_source c (init_resource cm)"
  by (simp_all add: cache_inv_def cache_from_source_def init_resource_def)

text \<open>
  C7. After any sequence of calls of \<open>get_operation_spec\<close> and
  \<open>get_operation_specs_by_model_name\<close> on a new instance, every operation name of a model
  in the model-level cache has an entry in the name-level cache. A batch fetch stores the
  batch under the model and gives each name of the batch that had no entry the specification
  of the batch, leaving the entries that were there as they were. When the two queries of the
  metadata source agree, the entry is the very specification of the model-level cache.
\<close>

theorem spec_cache_backfill_invariant:
  "cache_inv (run_calls c calls (init_resource cm)) \<and>
   (models_operations_specs_cache s m = None \<longrightarrow>
      models_operations_specs_cache (snd (get_operation_specs_by_model_name c m s)) m =
        Some (conn_get_operation_specs_by_model_name c m) \<and>
      (\<forall>n. operation_spec_cache (snd (get_operation_specs_by_model_name c m s)) n =
         (case operation_spec_cache s n of
            Some v \<Rightarrow> Some v
          | None \<Rightarrow> map_option Some (map_of (conn_get_operation_specs_by_model_name c m) n)))) \<and>
   (consistent_source c \<longrightarrow> cache_same_spec (run_calls c calls (init_resource cm)))"
proof -
  have a: "cache_inv (run_calls c calls (init_resource cm))"
    by (rule cache_inv_run) (rule init_invariants)
  have b: "models_operations_specs_cache s m = None \<longrightarrow>
      models_operations_specs_cache (snd (get_operation_specs_by_model_name c m s)) m =
        Some (conn_get_operation_specs_by_model_name c m) \<and>
      (\<forall>n. operation_spec_cache (snd (get_operation_specs_by_model_name c m s)) n =
         (case operation_spec_cache s n of
            Some v \<Rightarrow> Some v
          | None \<Rightarrow> map_option Some (map_of (conn_get_operation_specs_by_model_name c m) n)))"
    by (simp add: get_operation_specs_by_model_name_caches)
  have d: "consistent_source c \<longrightarrow> cache_same_spec (run_calls c calls (init_resource cm))"
    using cache_same_spec_from [OF _ cache_from_source_run [OF _ init_invariants(2)] a]
    by blast
  from a b d show ?thesis by blast
qed


theorem spec_cache_backfill_invariant_witness:
  "models_operations_specs_cache
     (run_calls (demo_conn demo_specs (demo_server (demo_error ''no'') []))
        [GetSpec ''addNetwork'', GetSpecsByModel ''Network''] (init_resource False)) ''Network'' =
     Some demo_specs \<and>
   list_all
     (\<lambda>kv. operation_spec_cache
        (run_calls (demo_conn demo_specs (demo_server (demo_error ''no'') []))
           [GetSpec ''addNetwork'', GetSpecsByModel ''Network''] (init_resource False)) (fst kv) \<noteq> None)
     demo_specs \<and>
   consistent_source (demo_conn demo_specs (demo_server (demo_error ''no'') [])) \<and>
   operation_spec_cache
     (run_calls (demo_conn demo_specs (demo_server (demo_error ''no'') []))
        [GetSpec ''addNetwork'', GetSpecsByModel ''Network''] (init_resource False)) ''getNetworkList'' =
     Some (Some \<lparr>spec_url = ''/object/networks'', spec_method = GET, spec_model_name = ''Network''\<rparr>) \<and>
   models_operations_specs_cache (init_resource False) ''Network'' = None \<and>
   operation_spec_cache
     (snd (get_operation_specs_by_model_name (demo_conn demo_specs (demo_server (demo_error ''no'') []))
        ''Network'' (init_resource False))) ''addNetwork'' =
     Some (Some \<lparr>spec_url = ''/object/networks'', spec_method = POST, spec_model_name = ''Network''\<rparr>)"
proof -
  let ?c = "demo_conn demo_specs (demo_server (demo_error ''no'') [])"
  let ?calls = "[GetSpec ''addNetwork'', GetSpecsByModel ''Network'']"
  let ?s = "run_calls ?c ?calls (init_resource False)"
  let ?t = "init_resource False"
  have hm: "models_operations_specs_cache ?s ''Network'' = Some demo_specs"
    by (simp add: run_calls_def get_operation_spec_caches get_operation_specs_by_model_name_caches
        init_resource_def demo_conn_def demo_specs_def)
  have cs: "consistent_source ?c"
    by (auto simp: consistent_source_def demo_conn_def demo_specs_def split: if_splits)
  have mo: "map_of demo_specs ''getNetworkList'' =
      Some \<lparr>spec_url = ''/object/networks'', spec_method = GET, spec_model_name = ''Network''\<rparr>"
    by (simp add: demo_specs_def)
  have i: "cache_inv ?s" and j: "cache_same_spec ?s"
    using spec_cache_backfill_invariant [of ?c ?calls False] cs by blast+
  from i hm have a: "list_all (\<lambda>kv. operation_spec_cache ?s (fst kv) \<noteq> None) demo_specs"
    unfolding cache_inv_def list_all_iff by blast
  from j hm mo have b: "operation_spec_cache ?s ''getNetworkList'' =
      Some (Some \<lparr>spec_url = ''/object/networks'', spec_method = GET, spec_model_name = ''Network''\<rparr>)"
    unfolding cache_same_spec_def by blast
  have tn: "models_operations_specs_cache ?t ''Network'' = None"
    by (simp add: init_resource_def)
  have tc: "operation_spec_cache ?t ''addNetwork'' = None"
    by (simp add: init_resource_def)
  have sp: "map_of (conn_get_operation_specs_by_model_name ?c ''Network'') ''addNetwork'' =
      Some \<lparr>spec_url = ''/object/networks'', spec_method = POST, spec_model_name = ''Network''\<rparr>"
    by (simp add: demo_conn_def demo_specs_def)
  from spec_cache_backfill_invariant [where c = ?c and s = ?t and m = "''Network''"] tn
  have k: "\<forall>n. operation_spec_cache (snd (get_operation_specs_by_model_name ?c ''Network'' ?t)) n =
         (case operation_spec_cache ?t n of
            Some v \<Rightarrow> Some v
          | None \<Rightarrow> map_option Some (map_of (conn_get_operation_specs_by_model_name ?c ''Network'') n))"
    by blast
  have f: "operation_spec_cache (snd (get_operation_specs_by_model_name ?c ''Network'' ?t)) ''addNetwork'' =
      Some (Some \<lparr>spec_url = ''/object/networks'', spec_method = POST, spec_model_name = ''Network''\<rparr>)"
    using k tc sp by simp
  from hm a cs b tn f show ?thesis
    by (intro conjI)
qed

text \<open>
  The claim C7 as written fails when the metadata source answers the two queries
  differently: an absence marker cached for a name is kept by the batch fetch, so the
  specification the model-level cache holds for that name is not in the name-level cache.
\<close>

theorem spec_not_in_name_cache_counterexample:
  "models_operations_specs_cache
     (run_calls demo_split_source
        [GetSpec ''getNetworkList'', GetSpecsByModel ''Network''] (init_resource False)) ''Network'' =
     Some demo_specs \<and>
   map_of demo_specs ''getNetworkList'' =
     Some \<lparr>spec_url = ''/object/networks'', spec_method = GET, spec_model_name = ''Network''\<rparr> \<and>
   operation_spec_cache
     (run_calls demo_split_source
        [GetSpec ''getNetworkList'', GetSpecsByModel ''Network''] (init_resource False)) ''getNetworkList'' =
     Some None \<and>
   \<not> cache_same_spec
     (run_calls demo_split_source
        [GetSpec ''getNetworkList'', GetSpecsByModel ''Network''] (init_resource False))"
proof -
  let ?s = "run_calls demo_split_source [GetSpec ''getNetworkList'', GetSpecsByModel ''Network'']
              (init_resource False)"
  have hm: "models_operations_specs_cache ?s ''Network'' = Some demo_specs"
    by (simp add: run_calls_def get_operation_spec_caches get_operation_specs_by_model_name_caches
        init_resource_def demo_split_source_def demo_conn_def demo_specs_def)
  have mo: "map_of demo_specs ''getNetworkList'' =
      Some \<lparr>spec_url = ''/object/networks'', spec_method = GET, spec_model_name = ''Network''\<rparr>"
    by (simp add: demo_specs_def)
  have n: "operation_spec_cache ?s ''getNetworkList'' = Some None"
    by (simp add: run_calls_def get_operation_spec_caches get_operation_specs_by_model_name_caches
        init_resource_def demo_split_source_def demo_conn_def)
  have "\<not> cache_same_spec ?s"
  proof
    assume "cache_same_spec ?s"
    with hm mo have "operation_spec_cache ?s ''getNetworkList'' =
        Some (Some \<lparr>spec_url = ''/object/networks'', spec_method = GET, spec_model_name = ''Network''\<rparr>)"
      unfolding cache_same_spec_def by blast
    with n show False by simp
  qed
  with hm mo n show ?thesis
    by (intro conjI)
qed

lemma initial_query_params_lookup:
  "map_of (initial_query_params q) ''limit'' = Some (supplied q ''limit'' (VInt 10))"
  "map_of (initial_query_params q) ''offset'' = Some (supplied q ''offset'' (VInt 0))"
  by (auto simp: initial_query_params_def setdefault_def supplied_def update_conv'
      DEFAULT_PAGE_SIZE_def DEFAULT_OFFSET_def split: option.splits)

lemma page_params_lookup:
  "map_of (page_params (initial_query_params q) off lim i) ''limit'' = Some (supplied q ''limit'' (VInt 10))"
  "map_of (page_params (initial_query_params q) off lim i) ''offset'' =
     Some (if i = 0 then supplied q ''offset'' (VInt 0) else VInt (off + int i * lim))"
  by (simp_all add: page_params_def initial_query_params_lookup update_conv')

lemma page_params_Suc:
  "AList.update ''offset'' (VInt (off + int (Suc i) * lim)) (page_params qp0 off lim i) =
     page_params qp0 off lim (Suc i)"
  by (simp add: page_params_def)

lemma next_offset_page:
  assumes "py_int c (supplied q ''offset'' (VInt 0)) = Inr off"
    and "py_int c (supplied q ''limit'' (VInt 10)) = Inr lim"
  shows "next_offset c (page_params (initial_query_params q) off lim i) = Inr (off + int (Suc i) * lim)"
  using assms
  by (simp add: next_offset_def page_params_lookup algebra_simps)

lemma gen_fetch_logged:
  "gen_fetch (logged f) qp log =
     (case f qp of Inl e \<Rightarrow> Inl e | Inr result \<Rightarrow> first_of_page result qp, log @ [qp])"
  by (simp add: gen_fetch_def logged_def split: sum.splits)

lemma fetch_page:
  assumes "page_items (f qp) = Some (VList (x # xs))"
  shows "gen_fetch (logged f) qp log = (Inr (Some (x, InPage xs qp)), log @ [qp])"
  using assms
  by (auto simp: gen_fetch_logged page_items_def first_of_page_def split: sum.splits)

lemma fetch_empty:
  assumes "page_items (f qp) = Some v" and "\<not> truthy v"
  shows "gen_fetch (logged f) qp log = (Inr None, log @ [qp])"
  using assms
  by (auto simp: gen_fetch_logged page_items_def first_of_page_def split: sum.splits)

lemma collect_in_page:
  assumes "\<And>x. keep x = Inr True"
  shows "collect (length xs + k) c rf keep (InPage xs qp) s =
     (case collect k c rf keep (InPage [] qp) s of
        None \<Rightarrow> None
      | Some (Inl e, s') \<Rightarrow> Some (Inl e, s')
      | Some (Inr ys, s') \<Rightarrow> Some (Inr (xs @ ys), s'))"
proof (induction xs)
  case Nil
  show ?case
    by (simp split: option.splits prod.splits sum.splits)
next
  case (Cons x xs)
  have step: "collect (Suc (length xs + k)) c rf keep (InPage (x # xs) qp) s =
      (case collect (length xs + k) c rf keep (InPage xs qp) s of
         None \<Rightarrow> None
       | Some (Inl e, s') \<Rightarrow> Some (Inl e, s')
       | Some (Inr ys, s') \<Rightarrow> Some (Inr (x # ys), s'))"
    using assms [of x] by (simp split: option.splits prod.splits sum.splits)
  show ?case
    unfolding length_Cons add_Suc step Cons.IH
    by (simp split: option.splits prod.splits sum.splits)
qed

lemma collect_more_fuel:
  "collect n c rf keep g s = Some r \<Longrightarrow> collect (n + k) c rf keep g s = Some r"
proof (induction n arbitrary: g s r)
  case 0
  then show ?case by simp
next
  case (Suc n)
  obtain a s1 where st: "gen_next c rf g s = (a, s1)"
    by (cases "gen_next c rf g s")
  show ?case
  proof (cases a)
    case (Inl e)
    with Suc.prems st show ?thesis by simp
  next
    case (Inr y)
    show ?thesis
    proof (cases y)
      case None
      with Suc.prems st Inr show ?thesis by simp
    next
      case (Some xg)
      obtain x g' where xg: "xg = (x, g')" by (cases xg)
      show ?thesis
      proof (cases "keep x")
        case (Inl e)
        with Suc.prems st Inr Some xg show ?thesis by simp
      next
        case kr: (Inr b)
        from Suc.prems st Inr Some xg kr
        obtain r1 where r1: "collect n c rf keep g' s1 = Some r1"
          by (auto split: option.splits)
        from Suc.IH [OF r1] have "collect (n + k) c rf keep g' s1 = Some r1" .
        with Suc.prems st Inr Some xg kr r1 show ?thesis
          by simp
      qed
    qed
  qed
qed

lemma collect_pages:
  assumes off: "py_int c (supplied q ''offset'' (VInt 0)) = Inr off"
    and lim: "py_int c (supplied q ''limit'' (VInt 10)) = Inr lim"
    and keep: "\<And>x. keep x = Inr True"
  shows "\<forall>s. gen_next c (logged f) g s = gen_fetch (logged f) (page_params (initial_query_params q) off lim i) s \<Longrightarrow>
     \<forall>j < length rest. rest ! j \<noteq> [] \<and>
        page_items (f (page_params (initial_query_params q) off lim (i + j))) = Some (VList (rest ! j)) \<Longrightarrow>
     \<exists>v. page_items (f (page_params (initial_query_params q) off lim (i + length rest))) = Some v \<and> \<not> truthy v \<Longrightarrow>
     collect (Suc (length (concat rest))) c (logged f) keep g log =
       Some (Inr (concat rest),
             log @ map (page_params (initial_query_params q) off lim) [i ..< Suc (i + length rest)])"
proof (induction rest arbitrary: g i log)
  case Nil
  from Nil.prems(3) obtain v
    where v: "page_items (f (page_params (initial_query_params q) off lim i)) = Some v" "\<not> truthy v"
    by auto
  show ?case
    using Nil.prems(1) fetch_empty [of f "page_params (initial_query_params q) off lim i" v log, OF v]
    by simp
next
  case (Cons xs rest)
  let ?pp = "page_params (initial_query_params q) off lim"
  from Cons.prems(2) have p0: "xs \<noteq> []" "page_items (f (?pp i)) = Some (VList xs)"
    by (auto dest: spec [of _ 0])
  then obtain x xs' where xs: "xs = x # xs'"
    by (cases xs) auto
  have first: "gen_next c (logged f) g log = (Inr (Some (x, InPage xs' (?pp i))), log @ [?pp i])"
    using Cons.prems(1) fetch_page [of f "?pp i" x xs'] p0(2) xs by simp
  have nxt: "\<forall>s. gen_next c (logged f) (InPage [] (?pp i)) s = gen_fetch (logged f) (?pp (Suc i)) s"
  proof
    fix s
    show "gen_next c (logged f) (InPage [] (?pp i)) s = gen_fetch (logged f) (?pp (Suc i)) s"
      unfolding gen_next.simps next_offset_page [OF off lim] sum.case page_params_Suc ..
  qed
  have pages: "\<forall>j < length rest. rest ! j \<noteq> [] \<and> page_items (f (?pp (Suc i + j))) = Some (VList (rest ! j))"
  proof (intro allI impI)
    fix j assume "j < length rest"
    then have "Suc j < length (xs # rest)" by simp
    with Cons.prems(2) have "(xs # rest) ! Suc j \<noteq> [] \<and>
        page_items (f (?pp (i + Suc j))) = Some (VList ((xs # rest) ! Suc j))"
      by blast
    then show "rest ! j \<noteq> [] \<and> page_items (f (?pp (Suc i + j))) = Some (VList (rest ! j))"
      by simp
  qed
  have last: "\<exists>v. page_items (f (?pp (Suc i + length rest))) = Some v \<and> \<not> truthy v"
    using Cons.prems(3) by simp
  define n where "n = length xs' + Suc (length (concat rest))"
  define L where "L = (log @ [?pp i]) @ map ?pp [Suc i ..< Suc (Suc i + length rest)]"
  have ih: "collect (Suc (length (concat rest))) c (logged f) keep (InPage [] (?pp i)) (log @ [?pp i]) =
      Some (Inr (concat rest), L)"
    unfolding L_def by (rule Cons.IH [OF nxt pages last])
  have inpage: "collect n c (logged f) keep (InPage xs' (?pp i)) (log @ [?pp i]) =
      Some (Inr (xs' @ concat rest), L)"
    unfolding n_def collect_in_page [OF keep] ih by simp
  have step: "collect (Suc n) c (logged f) keep g log = Some (Inr (x # xs' @ concat rest), L)"
    using keep [of x] by (simp add: first inpage)
  have fuel: "Suc (length (x # xs' @ concat rest)) = Suc n"
    by (simp add: n_def)
  have upt: "[i ..< Suc (i + length (xs # rest))] = i # [Suc i ..< Suc (Suc i + length rest)]"
  proof -
    have "[i ..< Suc (i + length (xs # rest))] = i # [Suc i ..< Suc (i + length (xs # rest))]"
      by (rule upt_conv_Cons) simp
    moreover have "Suc (i + length (xs # rest)) = Suc (Suc i + length rest)"
      by simp
    ultimately show ?thesis
      by (simp only:)
  qed
  have log: "log @ map ?pp [i ..< Suc (i + length (xs # rest))] = L"
    unfolding upt L_def by simp
  have items: "concat (xs # rest) = x # xs' @ concat rest"
    by (simp add: xs)
  show ?case
    unfolding log items fuel by (rule step)
qed

text \<open>
  C3. The first request carries the supplied query parameters with \<open>limit\<close> (default 10)
  and \<open>offset\<close> (default 0) added where missing; each later request carries the same with
  the offset advanced by the limit. When the pages at these offsets hold the non-empty item
  lists \<open>pages\<close> and the next one is empty, the iterator yields the items of \<open>pages\<close> in
  order and stops, after one fetch per page and one for the empty page.
\<close>

theorem pagination_until_empty_page:
  assumes off: "py_int c (supplied q ''offset'' (VInt 0)) = Inr off"
    and lim: "py_int c (supplied q ''limit'' (VInt 10)) = Inr lim"
    and pages: "\<forall>i < length pages. pages ! i \<noteq> [] \<and>
        page_items (f (page_params (initial_query_params q) off lim i)) = Some (VList (pages ! i))"
    and last: "\<exists>v. page_items (f (page_params (initial_query_params q) off lim (length pages))) = Some v \<and>
        \<not> truthy v"
    and fuel: "length (concat pages) < fuel"
  shows "collect fuel c (logged f) every_item (iterate_over_pageable_resource q) log =
           Some (Inr (concat pages),
                 log @ map (page_params (initial_query_params q) off lim) [0 ..< Suc (length pages)]) \<and>
         (\<forall>i. map_of (page_params (initial_query_params q) off lim i) ''limit'' =
                Some (supplied q ''limit'' (VInt 10)) \<and>
              map_of (page_params (initial_query_params q) off lim i) ''offset'' =
                Some (if i = 0 then supplied q ''offset'' (VInt 0) else VInt (off + int i * lim)))"
proof -
  let ?pp = "page_params (initial_query_params q) off lim"
  have keep: "every_item x = Inr True" for x
    by (simp add: every_item_def)
  have start: "\<forall>s. gen_next c (logged f) (iterate_over_pageable_resource q) s = gen_fetch (logged f) (?pp 0) s"
    by (simp add: iterate_over_pageable_resource_def page_params_def)
  have p: "\<forall>j < length pages. pages ! j \<noteq> [] \<and> page_items (f (?pp (0 + j))) = Some (VList (pages ! j))"
    using pages by simp
  have l: "\<exists>v. page_items (f (?pp (0 + length pages))) = Some v \<and> \<not> truthy v"
    using last by simp
  have exact: "collect (Suc (length (concat pages))) c (logged f) every_item
        (iterate_over_pageable_resource q) log =
      Some (Inr (concat pages), log @ map ?pp [0 ..< Suc (0 + length pages)])"
    by (rule collect_pages [OF off lim keep start p l])
  obtain k where k: "fuel = Suc (length (concat pages)) + k"
    using fuel by (metis less_iff_Suc_add add_Suc)
  have "collect fuel c (logged f) every_item (iterate_over_pageable_resource q) log =
      Some (Inr (concat pages), log @ map ?pp [0 ..< Suc (0 + length pages)])"
    unfolding k by (rule collect_more_fuel [OF exact])
  then show ?thesis
    by (simp add: page_params_lookup)
qed

theorem pagination_until_empty_page_witness:
  "collect 26 (demo_conn demo_specs (demo_server (demo_error ''no'') [])) (logged demo_pages) every_item
     (iterate_over_pageable_resource None) [] =
     Some (Inr demo_items,
           [[(''limit'', VInt 10), (''offset'', VInt 0)],
            [(''limit'', VInt 10), (''offset'', VInt 10)],
            [(''limit'', VInt 10), (''offset'', VInt 20)],
            [(''limit'', VInt 10), (''offset'', VInt 30)]]) \<and>
   length demo_items = 25"
proof -
  let ?c = "demo_conn demo_specs (demo_server (demo_error ''no'') [])"
  let ?pages = "[map VInt [0, 1, 2, 3, 4, 5, 6, 7, 8, 9],
                 map VInt [10, 11, 12, 13, 14, 15, 16, 17, 18, 19],
                 map VInt [20, 21, 22, 23, 24]]"
  have qp0: "initial_query_params None = [(''limit'', VInt 10), (''offset'', VInt 0)]"
    by (simp add: initial_query_params_def setdefault_def DEFAULT_PAGE_SIZE_def DEFAULT_OFFSET_def)
  have off: "py_int ?c (supplied None ''offset'' (VInt 0)) = Inr 0"
    by (simp add: supplied_def)
  have lim: "py_int ?c (supplied None ''limit'' (VInt 10)) = Inr 10"
    by (simp add: supplied_def)
  have pages: "\<forall>i < length ?pages. ?pages ! i \<noteq> [] \<and>
        page_items (demo_pages (page_params (initial_query_params None) 0 10 i)) = Some (VList (?pages ! i))"
    by (simp add: All_less_Suc qp0 page_params_def page_items_def demo_pages_def demo_items_def)
  have last: "\<exists>v. page_items (demo_pages (page_params (initial_query_params None) 0 10 (length ?pages))) = Some v \<and>
        \<not> truthy v"
    by (simp add: qp0 page_params_def page_items_def demo_pages_def demo_items_def)
  have fuel: "length (concat ?pages) < 26"
    by simp
  have items: "concat ?pages = demo_items"
    by (simp add: demo_items_def)
  have log: "map (page_params (initial_query_params None) 0 10) [0 ..< Suc (length ?pages)] =
      [[(''limit'', VInt 10), (''offset'', VInt 0)],
       [(''limit'', VInt 10), (''offset'', VInt 10)],
       [(''limit'', VInt 10), (''offset'', VInt 20)],
       [(''limit'', VInt 10), (''offset'', VInt 30)]]"
    by (simp add: qp0 page_params_def upt_rec)
  have "collect 26 ?c (logged demo_pages) every_item (iterate_over_pageable_resource None) [] =
      Some (Inr (concat ?pages),
            [] @ map (page_params (initial_query_params None) 0 10) [0 ..< Suc (length ?pages)])"
    using pagination_until_empty_page [OF off lim pages last fuel, of "[]"] by blast
  then show ?thesis
    unfolding items log by (simp add: demo_items_def)
qed

lemma find_all_among_found:
  "find_all_among c ns s = (Inr (Some f), s') \<Longrightarrow> f \<noteq> []"
proof (induction ns arbitrary: s)
  case Nil
  then show ?case by simp
next
  case (Cons n ns)
  obtain a s1 where i: "is_find_all_operation c n s = (a, s1)"
    by (cases "is_find_all_operation c n s")
  show ?case
  proof (cases a)
    case (Inl e)
    with Cons.prems i show ?thesis by simp
  next
    case (Inr b)
    show ?thesis
    proof (cases b)
      case True
      with i Inr have "startswith n ''get''"
        by (auto simp: is_find_all_operation_def Let_def split: prod.splits option.splits)
      then have "n \<noteq> []" by auto
      with Cons.prems i Inr True show ?thesis by simp
    next
      case False
      with Cons.prems i Inr have "find_all_among c ns s1 = (Inr (Some f), s')"
        by simp
      then show ?thesis
        by (rule Cons.IH)
    qed
  qed
qed

lemma get_find_all_operation_name_found:
  assumes "fst (get_find_all_operation_name c m s) = Inr (Some f)"
  shows "f \<noteq> []"
proof -
  obtain ops s1 where o: "get_operation_specs_by_model_name c m s = (ops, s1)"
    by (cases "get_operation_specs_by_model_name c m s")
  from assms have "fst (find_all_among c (map fst ops) s1) = Inr (Some f)"
    by (simp add: get_find_all_operation_name_def o split: if_splits)
  then show ?thesis
    using find_all_among_found [of c "map fst ops" s1 f]
    by (cases "find_all_among c (map fst ops) s1") simp
qed

lemma check_if_the_same_object_none:
  assumes "fst (get_find_all_operation_name c (spec_model_name sp) s) = Inr None"
  shows "check_if_the_same_object fuel c sp p e s =
     Some (Inl e, snd (get_find_all_operation_name c (spec_model_name sp) s), p)"
  using assms
  by (cases "get_find_all_operation_name c (spec_model_name sp) s")
     (simp add: check_if_the_same_object_def)

lemma check_if_the_same_object_some:
  assumes "fst (get_find_all_operation_name c (spec_model_name sp) s) = Inr (Some f)"
    and "p_data p \<noteq> Absent"
    and "default_filters (get_or_empty (p_data p)) p = Inr p1"
  shows "check_if_the_same_object fuel c sp p e s =
     (case get_objects_by_filter fuel c f p1 True (snd (get_find_all_operation_name c (spec_model_name sp) s)) of
        None \<Rightarrow> None
      | Some (Inl err, s2, p2) \<Rightarrow> Some (Inl err, s2, p2)
      | Some (Inr x, s2, p2) \<Rightarrow>
          if x \<noteq> VNone then
            (if equal_objects c x (get_or_empty (p_data p)) then Some (Inr x, s2, p2)
             else Some (Inl (FtdConfigurationError DIFFERENT_OBJECT_MESSAGE (Some x)), s2, p2))
          else Some (Inl e, s2, p2))"
  using assms get_find_all_operation_name_found [OF assms(1)]
  by (cases "get_find_all_operation_name c (spec_model_name sp) s"; cases "p_data p")
     (simp_all add: check_if_the_same_object_def split: option.splits prod.splits sum.splits)



lemma get_objects_by_filter_params:
  assumes "get_objects_by_filter fuel c n p one s = Some (r, s', p')"
  shows "p_filters p' = p_filters p \<and> p_data p' = p_data p \<and> p_path_params p' = p_path_params p"
proof -
  have "p' = p \<or> (\<exists>q. set_filters_query_param c (filters_or_empty (p_filters p)) p = Inr (q, p'))"
    using assms
    by (auto simp: get_objects_by_filter_def Let_def
        split: prod.splits sum.splits option.splits if_splits)
  then show ?thesis
    by (auto simp: set_filters_query_param_def Let_def split: if_splits arg.splits)
qed










text \<open>
  C9, as the code has it. \<open>add_object\<close> changes the caller's \<open>params\<close> only in the
  reconciliation: when the create request fails with the 422 duplicate-name error, the model
  has a FindAll operation, \<open>params\<close> has no \<open>filters\<close> key and the data has a name, then
  \<open>params['filters']\<close> is \<open>{name: data['name']}\<close> after the call, whether it returns or
  raises. Without a FindAll operation, and when the create request succeeds or fails
  otherwise, \<open>params\<close> is left as it was.
\<close>

theorem add_object_sets_default_filters:
  assumes "fst (get_operation_spec c n s) = Some sp"
    and "validation_report c n p sp = []"
    and "\<not> check_mode s"
  shows "let create = \<lparr>url_path = spec_url sp, http_method = spec_method sp,
                       body_params = get_or_empty (p_data p),
                       path_params = get_or_empty (p_path_params p),
                       query_params = get_or_empty (p_query_params p)\<rparr>;
             r = conn_send_request c (sent s) create;
             duplicate = (status_code r = 422 \<and>
                          str_contains (server_error_str c (response r) (status_code r))
                            ''Validation failed due to a duplicate name'');
             find_op = get_find_all_operation_name c (spec_model_name sp)
                         (snd (send_request c create (after_validation c n p sp s)))
         in (\<forall>f nm res s' p'.
               \<not> success r \<and> duplicate \<and> fst find_op = Inr (Some f) \<and> p_filters p = Absent \<and>
               py_getitem (get_or_empty (p_data p)) ''name'' = Inr nm \<and>
               add_object fuel c n p s = Some (res, s', p') \<longrightarrow>
               p_filters p' = Given [(''name'', nm)]) \<and>
            (\<forall>res s' p'.
               \<not> success r \<and> duplicate \<and> fst find_op = Inr None \<and>
               add_object fuel c n p s = Some (res, s', p') \<longrightarrow> p' = p) \<and>
            (\<forall>res s' p'.
               (success r \<or> \<not> duplicate) \<and> add_object fuel c n p s = Some (res, s', p') \<longrightarrow> p' = p)"
proof -
  let ?create = "\<lparr>url_path = spec_url sp, http_method = spec_method sp,
                   body_params = get_or_empty (p_data p),
                   path_params = get_or_empty (p_path_params p),
                   query_params = get_or_empty (p_query_params p)\<rparr>"
  let ?r = "conn_send_request c (sent s) ?create"
  let ?e = "FtdServerError (response ?r) (status_code ?r)"
  let ?dup = "status_code ?r = 422 \<and>
              str_contains (server_error_str c (response ?r) (status_code ?r))
                ''Validation failed due to a duplicate name''"
  let ?s3 = "snd (send_request c ?create (after_validation c n p sp s))"
  let ?fo = "get_find_all_operation_name c (spec_model_name sp) ?s3"
  let ?data = "get_or_empty (p_data p)"
  define D where "D \<longleftrightarrow> is_duplicate_name_error c (response ?r) (status_code ?r)"
  have dup: "?dup \<longleftrightarrow> D"
    by (simp add: D_def is_duplicate_name_error_def UNPROCESSABLE_ENTITY_STATUS_def
        DUPLICATE_NAME_ERROR_MESSAGE_def)
  have add: "add_object fuel c n p s =
      (if success ?r then Some (Inr (response ?r), ?s3, p)
       else if D then check_if_the_same_object fuel c sp p ?e ?s3
       else Some (Inl ?e, ?s3, p))"
    using assms(2,3)
    by (simp add: add_object_eq [OF assms(1)] send_request_eq after_validation_frame D_def)
  have a: "\<forall>f nm res s' p'.
       \<not> success ?r \<and> ?dup \<and> fst ?fo = Inr (Some f) \<and> p_filters p = Absent \<and>
       py_getitem ?data ''name'' = Inr nm \<and>
       add_object fuel c n p s = Some (res, s', p') \<longrightarrow>
       p_filters p' = Given [(''name'', nm)]"
    unfolding dup
  proof (intro allI impI)
    fix f nm res s' p'
    assume h: "\<not> success ?r \<and> D \<and> fst ?fo = Inr (Some f) \<and> p_filters p = Absent \<and>
       py_getitem ?data ''name'' = Inr nm \<and> add_object fuel c n p s = Some (res, s', p')"
    let ?p1 = "p\<lparr>p_filters := Given [(''name'', nm)]\<rparr>"
    have present: "p_data p \<noteq> Absent"
      using h by auto
    have df: "default_filters ?data p = Inr ?p1"
      using h by (simp add: default_filters_def)
    from h have ns: "\<not> success ?r" and dD: D
      and ao: "add_object fuel c n p s = Some (res, s', p')"
      by blast+
    have "add_object fuel c n p s = check_if_the_same_object fuel c sp p ?e ?s3"
      using ns dD by (simp add: add)
    with ao have "check_if_the_same_object fuel c sp p ?e ?s3 = Some (res, s', p')"
      by simp
    then obtain r2 s2 where "get_objects_by_filter fuel c f ?p1 True (snd ?fo) = Some (r2, s2, p')"
      using h present df
      by (auto simp: check_if_the_same_object_some [where f = f and ?p1.0 = ?p1]
          split: option.splits prod.splits sum.splits if_splits)
    from get_objects_by_filter_params [OF this]
    show "p_filters p' = Given [(''name'', nm)]"
      by simp
  qed
  have b: "\<forall>res s' p'.
       \<not> success ?r \<and> ?dup \<and> fst ?fo = Inr None \<and>
       add_object fuel c n p s = Some (res, s', p') \<longrightarrow> p' = p"
    unfolding dup by (auto simp: add check_if_the_same_object_none)
  have d: "\<forall>res s' p'.
       (success ?r \<or> \<not> ?dup) \<and> add_object fuel c n p s = Some (res, s', p') \<longrightarrow> p' = p"
    unfolding dup by (auto simp: add split: if_splits)
  from a b d show ?thesis
    unfolding Let_def by (intro conjI)
qed

theorem add_object_sets_default_filters_witness:
  "p_filters (demo_params (Given [(''name'', VStr ''x''), (''a'', VInt 1)])) = Absent \<and>
   map_option fst (add_object (Suc (Suc (Suc 0))) (demo_conn demo_specs (demo_server (demo_error ''Validation failed due to a duplicate name'') [demo_object 1])) ''addNetwork'' (demo_params (Given [(''name'', VStr ''x''), (''a'', VInt 1)])) (init_resource False)) =
     Some (Inr (demo_object 1)) \<and>
   map_option (p_filters \<circ> snd \<circ> snd) (add_object (Suc (Suc (Suc 0))) (demo_conn demo_specs (demo_server (demo_error ''Validation failed due to a duplicate name'') [demo_object 1])) ''addNetwork'' (demo_params (Given [(''name'', VStr ''x''), (''a'', VInt 1)])) (init_resource False)) =
     Some (Given [(''name'', VStr ''x'')]) \<and>
   p_filters (demo_params (Given [(''name'', VStr ''x''), (''a'', VInt 2)])) = Absent \<and>
   map_option fst (add_object (Suc (Suc (Suc 0))) (demo_conn demo_specs (demo_server (demo_error ''Validation failed due to a duplicate name'') [demo_object 1])) ''addNetwork'' (demo_params (Given [(''name'', VStr ''x''), (''a'', VInt 2)])) (init_resource False)) =
     Some (Inl (FtdConfigurationError
        ''Cannot add new object. An object with the same name but different parameters already exists.''
        (Some (demo_object 1)))) \<and>
   map_option (p_filters \<circ> snd \<circ> snd) (add_object (Suc (Suc (Suc 0))) (demo_conn demo_specs (demo_server (demo_error ''Validation failed due to a duplicate name'') [demo_object 1])) ''addNetwork'' (demo_params (Given [(''name'', VStr ''x''), (''a'', VInt 2)])) (init_resource False)) =
     Some (Given [(''name'', VStr ''x'')])"
proof -
  let ?sp = "\<lparr>spec_url = ''/object/networks'', spec_method = POST, spec_model_name = ''Network''\<rparr>"
  let ?s = "init_resource False"
  let ?fuel = "Suc (Suc (Suc 0))"
  have returns: "p_filters (demo_params (Given [(''name'', VStr ''x''), (''a'', VInt 1)])) = Absent \<and>
   map_option fst (add_object (Suc (Suc (Suc 0))) (demo_conn demo_specs (demo_server (demo_error ''Validation failed due to a duplicate name'') [demo_object 1])) ''addNetwork'' (demo_params (Given [(''name'', VStr ''x''), (''a'', VInt 1)])) (init_resource False)) =
     Some (Inr (demo_object 1)) \<and>
   map_option (p_filters \<circ> snd \<circ> snd) (add_object (Suc (Suc (Suc 0))) (demo_conn demo_specs (demo_server (demo_error ''Validation failed due to a duplicate name'') [demo_object 1])) ''addNetwork'' (demo_params (Given [(''name'', VStr ''x''), (''a'', VInt 1)])) (init_resource False)) =
     Some (Given [(''name'', VStr ''x'')])"
  proof -
    let ?c = "demo_conn demo_specs (demo_server (demo_error ''Validation failed due to a duplicate name'') [demo_object 1])"
    let ?p = "demo_params (Given [(''name'', VStr ''x''), (''a'', VInt 1)])"
    let ?create = "\<lparr>url_path = spec_url ?sp, http_method = spec_method ?sp,
                     body_params = get_or_empty (p_data ?p),
                     path_params = get_or_empty (p_path_params ?p),
                     query_params = get_or_empty (p_query_params ?p)\<rparr>"
    let ?r = "conn_send_request ?c (sent ?s) ?create"
    let ?dup = "status_code ?r = 422 \<and>
                str_contains (server_error_str ?c (response ?r) (status_code ?r))
                  ''Validation failed due to a duplicate name''"
    let ?fo = "get_find_all_operation_name ?c (spec_model_name ?sp)
                 (snd (send_request ?c ?create (after_validation ?c ''addNetwork'' ?p ?sp ?s)))"
    have h1: "fst (get_operation_spec ?c ''addNetwork'' ?s) = Some ?sp"
      by code_simp
    have h2: "validation_report ?c ''addNetwork'' ?p ?sp = []"
      by code_simp
    have h3: "\<not> check_mode ?s"
      by code_simp
    note T = add_object_sets_default_filters [OF h1 h2 h3, of ?fuel, unfolded Let_def]
    have k1: "\<not> success ?r"
      by code_simp
    have k2: "?dup"
      by code_simp
    have k3: "fst ?fo = Inr (Some ''getNetworkList'')"
      by code_simp
    have k4: "p_filters ?p = Absent"
      by code_simp
    have k5: "py_getitem (get_or_empty (p_data ?p)) ''name'' = Inr (VStr ''x'')"
      by code_simp
    have out: "map_option fst (add_object ?fuel ?c ''addNetwork'' ?p ?s) =
        Some (Inr (demo_object 1))"
      by code_simp
    then obtain res s' p' where ret: "add_object ?fuel ?c ''addNetwork'' ?p ?s = Some (res, s', p')"
      by (cases "add_object ?fuel ?c ''addNetwork'' ?p ?s") auto
    from T k1 k2 k3 k4 k5 ret have "p_filters p' = Given [(''name'', VStr ''x'')]"
      by blast
    with ret have "map_option (p_filters \<circ> snd \<circ> snd) (add_object ?fuel ?c ''addNetwork'' ?p ?s) =
        Some (Given [(''name'', VStr ''x'')])"
      by simp
    with k4 out show ?thesis
      by (intro conjI)
  qed
  have raises: "p_filters (demo_params (Given [(''name'', VStr ''x''), (''a'', VInt 2)])) = Absent \<and>
   map_option fst (add_object (Suc (Suc (Suc 0))) (demo_conn demo_specs (demo_server (demo_error ''Validation failed due to a duplicate name'') [demo_object 1])) ''addNetwork'' (demo_params (Given [(''name'', VStr ''x''), (''a'', VInt 2)])) (init_resource False)) =
     Some (Inl (FtdConfigurationError
        ''Cannot add new object. An object with the same name but different parameters already exists.''
        (Some (demo_object 1)))) \<and>
   map_option (p_filters \<circ> snd \<circ> snd) (add_object (Suc (Suc (Suc 0))) (demo_conn demo_specs (demo_server (demo_error ''Validation failed due to a duplicate name'') [demo_object 1])) ''addNetwork'' (demo_params (Given [(''name'', VStr ''x''), (''a'', VInt 2)])) (init_resource False)) =
     Some (Given [(''name'', VStr ''x'')])"
  proof -
    let ?c = "demo_conn demo_specs (demo_server (demo_error ''Validation failed due to a duplicate name'') [demo_object 1])"
    let ?p = "demo_params (Given [(''name'', VStr ''x''), (''a'', VInt 2)])"
    let ?create = "\<lparr>url_path = spec_url ?sp, http_method = spec_method ?sp,
                     body_params = get_or_empty (p_data ?p),
                     path_params = get_or_empty (p_path_params ?p),
                     query_params = get_or_empty (p_query_params ?p)\<rparr>"
    let ?r = "conn_send_request ?c (sent ?s) ?create"
    let ?dup = "status_code ?r = 422 \<and>
                str_contains (server_error_str ?c (response ?r) (status_code ?r))
                  ''Validation failed due to a duplicate name''"
    let ?fo = "get_find_all_operation_name ?c (spec_model_name ?sp)
                 (snd (send_request ?c ?create (after_validation ?c ''addNetwork'' ?p ?sp ?s)))"
    have h1: "fst (get_operation_spec ?c ''addNetwork'' ?s) = Some ?sp"
      by code_simp
    have h2: "validation_report ?c ''addNetwork'' ?p ?sp = []"
      by code_simp
    have h3: "\<not> check_mode ?s"
      by code_simp
    note T = add_object_sets_default_filters [OF h1 h2 h3, of ?fuel, unfolded Let_def]
    have k1: "\<not> success ?r"
      by code_simp
    have k2: "?dup"
      by code_simp
    have k3: "fst ?fo = Inr (Some ''getNetworkList'')"
      by code_simp
    have k4: "p_filters ?p = Absent"
      by code_simp
    have k5: "py_getitem (get_or_empty (p_data ?p)) ''name'' = Inr (VStr ''x'')"
      by code_simp
    have out: "map_option fst (add_object ?fuel ?c ''addNetwork'' ?p ?s) =
        Some (Inl (FtdConfigurationError
        ''Cannot add new object. An object with the same name but different parameters already exists.''
        (Some (demo_object 1))))"
      by code_simp
    then obtain res s' p' where ret: "add_object ?fuel ?c ''addNetwork'' ?p ?s = Some (res, s', p')"
      by (cases "add_object ?fuel ?c ''addNetwork'' ?p ?s") auto
    from T k1 k2 k3 k4 k5 ret have "p_filters p' = Given [(''name'', VStr ''x'')]"
      by blast
    with ret have "map_option (p_filters \<circ> snd \<circ> snd) (add_object ?fuel ?c ''addNetwork'' ?p ?s) =
        Some (Given [(''name'', VStr ''x'')])"
      by simp
    with k4 out show ?thesis
      by (intro conjI)
  qed
  from returns raises show ?thesis
    by (intro conjI) blast+
qed

text \<open>
  The claim C9 as written fails when the model has no FindAll operation: the create request
  fails with the 422 duplicate-name error, \<open>params\<close> has no \<open>filters\<close> key, and
  \<open>params\<close> has none after the call either.
\<close>

theorem filters_not_inserted_counterexample:
  "p_filters (demo_params (Given [(''name'', VStr ''x''), (''a'', VInt 1)])) = Absent \<and>
   map_option fst (add_object (Suc (Suc (Suc 0))) (demo_conn (butlast demo_specs) (demo_server (demo_error ''Validation failed due to a duplicate name'') [demo_object 1])) ''addNetwork'' (demo_params (Given [(''name'', VStr ''x''), (''a'', VInt 1)])) (init_resource False)) =
     Some (Inl (FtdServerError (VDict [(''message'', VStr ''Validation failed due to a duplicate name'')]) 422)) \<and>
   is_duplicate_name_error (demo_conn (butlast demo_specs) (demo_server (demo_error ''Validation failed due to a duplicate name'') [demo_object 1]))
     (VDict [(''message'', VStr ''Validation failed due to a duplicate name'')]) 422 \<and>
   map_option (p_filters \<circ> snd \<circ> snd) (add_object (Suc (Suc (Suc 0))) (demo_conn (butlast demo_specs) (demo_server (demo_error ''Validation failed due to a duplicate name'') [demo_object 1])) ''addNetwork'' (demo_params (Given [(''name'', VStr ''x''), (''a'', VInt 1)])) (init_resource False)) =
     Some Absent"
proof -
  have a: "p_filters (demo_params (Given [(''name'', VStr ''x''), (''a'', VInt 1)])) = Absent"
    by code_simp
  have b: "map_option fst (add_object (Suc (Suc (Suc 0))) (demo_conn (butlast demo_specs) (demo_server (demo_error ''Validation failed due to a duplicate name'') [demo_object 1])) ''addNetwork'' (demo_params (Given [(''name'', VStr ''x''), (''a'', VInt 1)])) (init_resource False)) =
     Some (Inl (FtdServerError (VDict [(''message'', VStr ''Validation failed due to a duplicate name'')]) 422))"
    by code_simp
  have d: "is_duplicate_name_error (demo_conn (butlast demo_specs) (demo_server (demo_error ''Validation failed due to a duplicate name'') [demo_object 1]))
     (VDict [(''message'', VStr ''Validation failed due to a duplicate name'')]) 422"
    by code_simp
  have e: "map_option (p_filters \<circ> snd \<circ> snd) (add_object (Suc (Suc (Suc 0))) (demo_conn (butlast demo_specs) (demo_server (demo_error ''Validation failed due to a duplicate name'') [demo_object 1])) ''addNetwork'' (demo_params (Given [(''name'', VStr ''x''), (''a'', VInt 1)])) (init_resource False)) =
     Some Absent"
    by code_simp
  from a b d e show ?thesis
    by (intro conjI)
qed

end
